theory Spec2Isabelle
  imports Main
begin

section \<open>JavaScript strings\<close>

text \<open>
  The handlers work on JavaScript strings. They are modelled as \<^typ>\<open>string\<close>, read as
  sequences of ASCII code units (codes below 128): on such text \<open>toUpperCase\<close>,
  \<open>toLowerCase\<close>, \<open>trim\<close> and the character classes \<open>\d\<close>, \<open>\s\<close>, \<open>[A-Z]\<close> and
  \<open>.\<close> are exactly the functions below. Characters outside ASCII (where JavaScript has
  further white space and case mappings that change the length of a string) are outside
  the model.
\<close>

definition code :: "char \<Rightarrow> nat" where
  "code c = of_char c"

definition isDigit :: "char \<Rightarrow> bool" where
  "isDigit c = (48 \<le> code c \<and> code c \<le> 57)"

definition isUpper :: "char \<Rightarrow> bool" where
  "isUpper c = (65 \<le> code c \<and> code c \<le> 90)"

definition isLower :: "char \<Rightarrow> bool" where
  "isLower c = (97 \<le> code c \<and> code c \<le> 122)"

text \<open>White space of \<open>\s\<close> and \<open>trim\<close>: TAB, LF, VT, FF, CR and the space.\<close>

definition isSpace :: "char \<Rightarrow> bool" where
  "isSpace c = (code c = 9 \<or> code c = 10 \<or> code c = 11 \<or> code c = 12 \<or> code c = 13 \<or> code c = 32)"

text \<open>The line terminators, which \<open>.\<close> does not match: LF and CR.\<close>

definition isLineTerminator :: "char \<Rightarrow> bool" where
  "isLineTerminator c = (code c = 10 \<or> code c = 13)"

definition upperChar :: "char \<Rightarrow> char" where
  "upperChar c = (if isLower c then char_of (code c - 32) else c)"

definition lowerChar :: "char \<Rightarrow> char" where
  "lowerChar c = (if isUpper c then char_of (code c + 32) else c)"

definition toUpperCase :: "string \<Rightarrow> string" where
  "toUpperCase s = map upperChar s"

definition toLowerCase :: "string \<Rightarrow> string" where
  "toLowerCase s = map lowerChar s"

definition trim :: "string \<Rightarrow> string" where
  "trim s = rev (dropWhile isSpace (rev (dropWhile isSpace s)))"

text \<open>
  \<open>s.lastIndexOf(",")\<close>: the index of the last comma, \<open>None\<close> for JavaScript's \<open>-1\<close>.
\<close>

fun lastIndexOf :: "string \<Rightarrow> char \<Rightarrow> nat option" where
  "lastIndexOf [] c = None"
| "lastIndexOf (x # xs) c =
     (case lastIndexOf xs c of
        Some i \<Rightarrow> Some (Suc i)
      | None \<Rightarrow> if x = c then Some 0 else None)"

text \<open>\<open>s.slice(a, b)\<close> and \<open>s.slice(a)\<close> for indices within the string.\<close>

definition slice :: "string \<Rightarrow> nat \<Rightarrow> nat \<Rightarrow> string" where
  "slice s a b = take (b - a) (drop a s)"

definition sliceFrom :: "string \<Rightarrow> nat \<Rightarrow> string" where
  "sliceFrom s a = drop a s"

text \<open>The decimal digits of a number, as a template literal prints it.\<close>

fun decimal :: "nat \<Rightarrow> string" where
  "decimal n =
     (if n < 10 then [char_of (48 + n)]
      else decimal (n div 10) @ [char_of (48 + n mod 10)])"

declare decimal.simps [simp del]

section \<open>Regular expressions\<close>

text \<open>
  The regular expressions of the source use character classes, concatenation, an
  optional group and the repetitions \<open>*\<close>, \<open>+\<close> and \<open>{n}\<close>, always anchored with \<open>^\<close>
  and \<open>$\<close> (without the \<open>m\<close> flag). For such an expression, \<open>test\<close> and a non-null
  \<open>match\<close> hold exactly when the whole string belongs to the language of the
  expression, which is decided here with derivatives.
\<close>

datatype cclass =
    Digit         \<comment> \<open>\<open>\d\<close>\<close>
  | UpperAZ       \<comment> \<open>\<open>[A-Z]\<close>\<close>
  | WhiteSpace    \<comment> \<open>\<open>\s\<close>\<close>
  | AnyChar       \<comment> \<open>\<open>.\<close>\<close>
  | Lit char      \<comment> \<open>a literal character\<close>

fun inClass :: "cclass \<Rightarrow> char \<Rightarrow> bool" where
  "inClass Digit c = isDigit c"
| "inClass UpperAZ c = isUpper c"
| "inClass WhiteSpace c = isSpace c"
| "inClass AnyChar c = (\<not> isLineTerminator c)"
| "inClass (Lit d) c = (c = d)"

datatype regex =
    Nothing
  | Empty
  | Sym cclass
  | Seq regex regex
  | Alt regex regex
  | Star regex

definition Plus :: "regex \<Rightarrow> regex" where
  "Plus r = Seq r (Star r)"

definition Opt :: "regex \<Rightarrow> regex" where
  "Opt r = Alt r Empty"

fun Times :: "nat \<Rightarrow> regex \<Rightarrow> regex" where
  "Times 0 r = Empty"
| "Times (Suc n) r = Seq r (Times n r)"

fun nullable :: "regex \<Rightarrow> bool" where
  "nullable Nothing = False"
| "nullable Empty = True"
| "nullable (Sym k) = False"
| "nullable (Seq r s) = (nullable r \<and> nullable s)"
| "nullable (Alt r s) = (nullable r \<or> nullable s)"
| "nullable (Star r) = True"

text \<open>
  The derivative, built with constructors that drop \<open>Nothing\<close> and \<open>Empty\<close> so that the
  expression stays small along a string.
\<close>

fun seq :: "regex \<Rightarrow> regex \<Rightarrow> regex" where
  "seq Nothing s = Nothing"
| "seq Empty s = s"
| "seq r s = Seq r s"

fun alt :: "regex \<Rightarrow> regex \<Rightarrow> regex" where
  "alt Nothing s = s"
| "alt r Nothing = r"
| "alt r s = Alt r s"

fun deriv :: "char \<Rightarrow> regex \<Rightarrow> regex" where
  "deriv c Nothing = Nothing"
| "deriv c Empty = Nothing"
| "deriv c (Sym k) = (if inClass k c then Empty else Nothing)"
| "deriv c (Seq r s) =
     (if nullable r then alt (seq (deriv c r) s) (deriv c s) else seq (deriv c r) s)"
| "deriv c (Alt r s) = alt (deriv c r) (deriv c s)"
| "deriv c (Star r) = seq (deriv c r) (Star r)"

fun matches :: "regex \<Rightarrow> string \<Rightarrow> bool" where
  "matches r [] = nullable r"
| "matches r (c # cs) = matches (deriv c r) cs"

text \<open>\<open>/^\d{5}$/\<close>\<close>

definition zipRegex :: regex where
  "zipRegex = Times 5 (Sym Digit)"

text \<open>\<open>/^([A-Z]{2})\s+(\d{5})$/\<close>\<close>

definition stateZipRegex :: regex where
  "stateZipRegex =
     Seq (Times 2 (Sym UpperAZ)) (Seq (Plus (Sym WhiteSpace)) (Times 5 (Sym Digit)))"

text \<open>\<open>/^.+,\s*[A-Z]{2}(\s+\d{5})?$/\<close>\<close>

definition suggestionRegex :: regex where
  "suggestionRegex =
     Seq (Plus (Sym AnyChar))
       (Seq (Sym (Lit CHR '',''))
         (Seq (Star (Sym WhiteSpace))
           (Seq (Times 2 (Sym UpperAZ))
             (Opt (Seq (Plus (Sym WhiteSpace)) (Times 5 (Sym Digit)))))))"


section \<open>JSON values\<close>

text \<open>
  A value read by \<open>request.json()\<close>, \<open>response.json()\<close> or \<open>JSON.parse\<close>. An object is the
  list of its properties (each key once). A JavaScript expression that may be
  \<open>undefined\<close> has type \<open>json option\<close>, with \<open>None\<close> for \<open>undefined\<close>. Numbers are
  looked at only through \<open>typeof\<close> and truthiness, so integers stand for them.
\<close>

datatype json =
    JNull
  | JBool bool
  | JNum int
  | JStr string
  | JArr "json list"
  | JObj "(string \<times> json) list"

text \<open>
  \<open>v.name\<close> for a value that is not \<open>null\<close> and a name that no prototype defines
  (\<open>zip\<close>, \<open>city\<close>, \<open>state\<close>, \<open>choices\<close>, \<open>message\<close>, \<open>content\<close>): only an object can have it.
  On \<open>null\<close> the access throws a TypeError, which the callers test first.
\<close>

fun getProp :: "json \<Rightarrow> string \<Rightarrow> json option" where
  "getProp (JObj kvs) name = map_of kvs name"
| "getProp _ name = None"

text \<open>\<open>v?.name\<close>: \<open>undefined\<close> when \<open>v\<close> is \<open>undefined\<close> or \<open>null\<close>.\<close>

fun optProp :: "json option \<Rightarrow> string \<Rightarrow> json option" where
  "optProp None name = None"
| "optProp (Some JNull) name = None"
| "optProp (Some v) name = getProp v name"

text \<open>
  \<open>v?.[0]\<close>: the first element of an array, the first character of a string, the
  property \<open>"0"\<close> of an object.
\<close>

fun optFirst :: "json option \<Rightarrow> json option" where
  "optFirst (Some (JArr (x # xs))) = Some x"
| "optFirst (Some (JStr (c # cs))) = Some (JStr [c])"
| "optFirst (Some (JObj kvs)) = map_of kvs ''0''"
| "optFirst _ = None"

text \<open>Truthiness, as \<open>!v\<close>, \<open>&&\<close> and \<open>? :\<close> test it.\<close>

fun truthy :: "json option \<Rightarrow> bool" where
  "truthy None = False"
| "truthy (Some JNull) = False"
| "truthy (Some (JBool b)) = b"
| "truthy (Some (JNum n)) = (n \<noteq> 0)"
| "truthy (Some (JStr s)) = (s \<noteq> [])"
| "truthy (Some (JArr xs)) = True"
| "truthy (Some (JObj kvs)) = True"

text \<open>\<open>data.choices?.[0]?.message?.content\<close> for \<open>data\<close> that is not \<open>null\<close>.\<close>

definition firstChoiceContent :: "json \<Rightarrow> json option" where
  "firstChoiceContent data =
     optProp (optProp (optFirst (getProp data ''choices'')) ''message'') ''content''"

section \<open>Request validation (zod schemas)\<close>

definition US_STATES :: "string list" where
  "US_STATES =
    [''AL'', ''AK'', ''AZ'', ''AR'', ''CA'', ''CO'', ''CT'', ''DE'', ''FL'', ''GA'',
     ''HI'', ''ID'', ''IL'', ''IN'', ''IA'', ''KS'', ''KY'', ''LA'', ''ME'', ''MD'',
     ''MA'', ''MI'', ''MN'', ''MS'', ''MO'', ''MT'', ''NE'', ''NV'', ''NH'', ''NJ'',
     ''NM'', ''NY'', ''NC'', ''ND'', ''OH'', ''OK'', ''OR'', ''PA'', ''RI'', ''SC'',
     ''SD'', ''TN'', ''TX'', ''UT'', ''VT'', ''VA'', ''WA'', ''WV'', ''WI'', ''WY'', ''DC'']"

text \<open>
  A schema returns \<open>None\<close> where \<open>parse\<close> throws a \<open>ZodError\<close>. \<open>z.string()\<close> accepts a
  string only; \<open>z.string().optional()\<close> also accepts a missing field; \<open>z.object\<close> accepts
  an object only and drops the keys that the schema does not name.
\<close>

fun z_string :: "json option \<Rightarrow> string option" where
  "z_string (Some (JStr s)) = Some s"
| "z_string _ = None"

fun z_string_optional :: "json option \<Rightarrow> string option option" where
  "z_string_optional None = Some None"
| "z_string_optional (Some (JStr s)) = Some (Some s)"
| "z_string_optional _ = None"

text \<open>
  \<open>z.string().transform((s) => s.toUpperCase()).pipe(z.string().refine((s) =>
  US_STATES.has(s)))\<close>: the parsed state is the upper-cased one.
\<close>

definition z_state :: "json option \<Rightarrow> string option" where
  "z_state v =
     (case z_string v of
        None \<Rightarrow> None
      | Some s \<Rightarrow> if toUpperCase s \<in> set US_STATES then Some (toUpperCase s) else None)"

text \<open>\<open>z.string().min(1).max(100)\<close>\<close>

definition z_city :: "json option \<Rightarrow> string option" where
  "z_city v =
     (case z_string v of
        None \<Rightarrow> None
      | Some s \<Rightarrow> if 1 \<le> length s \<and> length s \<le> 100 then Some s else None)"

text \<open>\<open>z.string().regex(/^\d{5}$/)\<close>\<close>

definition z_zip :: "json option \<Rightarrow> string option" where
  "z_zip v =
     (case z_string v of
        None \<Rightarrow> None
      | Some s \<Rightarrow> if matches zipRegex s then Some s else None)"

text \<open>\<open>cityStateSchema\<close> of the weather route: \<open>{city, state, zip?}\<close>.\<close>

fun cityStateSchema :: "json \<Rightarrow> (string \<times> string \<times> string option) option" where
  "cityStateSchema (JObj kvs) =
     (case (z_city (map_of kvs ''city''), z_state (map_of kvs ''state''),
            z_string_optional (map_of kvs ''zip'')) of
        (Some city, Some state, Some zip') \<Rightarrow> Some (city, state, zip')
      | _ \<Rightarrow> None)"
| "cityStateSchema _ = None"

text \<open>\<open>zipOnlySchema\<close> of the weather route: \<open>{zip}\<close>.\<close>

fun zipOnlySchema :: "json \<Rightarrow> string option" where
  "zipOnlySchema (JObj kvs) = z_zip (map_of kvs ''zip'')"
| "zipOnlySchema _ = None"

text \<open>\<open>requestSchema\<close> of the weather route without zip codes: \<open>{city, state}\<close>.\<close>

fun requestSchema :: "json \<Rightarrow> (string \<times> string) option" where
  "requestSchema (JObj kvs) =
     (case (z_city (map_of kvs ''city''), z_state (map_of kvs ''state'')) of
        (Some city, Some state) \<Rightarrow> Some (city, state)
      | _ \<Rightarrow> None)"
| "requestSchema _ = None"


section \<open>Environment, cache and upstream service\<close>

text \<open>\<open>process.env\<close>: a variable that is not set is \<open>None\<close>.\<close>

record env =
  OPENROUTER_API_KEY :: "string option"
  NEXT_PUBLIC_APP_URL :: "string option"

text \<open>
  The API key that passes the test \<open>!apiKey || apiKey === "your_openrouter_api_key_here"\<close>:
  \<open>None\<close> when the variable is not set, empty or the placeholder.
\<close>

definition configuredKey :: "env \<Rightarrow> string option" where
  "configuredKey e =
     (case OPENROUTER_API_KEY e of
        None \<Rightarrow> None
      | Some k \<Rightarrow> if k = [] \<or> k = ''your_openrouter_api_key_here'' then None else Some k)"

text \<open>\<open>process.env.NEXT_PUBLIC_APP_URL || "https://weather-gpt-app.vercel.app"\<close>\<close>

definition referer :: "env \<Rightarrow> string" where
  "referer e =
     (case NEXT_PUBLIC_APP_URL e of
        None \<Rightarrow> ''https://weather-gpt-app.vercel.app''
      | Some u \<Rightarrow> if u = [] then ''https://weather-gpt-app.vercel.app'' else u)"

text \<open>
  The module-level \<open>Map\<close> of a route, from cache key to \<open>{data, timestamp}\<close>; time is
  \<open>Date.now()\<close>, in milliseconds.
\<close>

record 'd entry =
  data :: 'd
  timestamp :: int

type_synonym 'd cache = "string \<rightharpoonup> 'd entry"

text \<open>
  \<open>cache.get(cacheKey)\<close> with the test \<open>cached && Date.now() - cached.timestamp < CACHE_TTL\<close>:
  the stored data when the test holds.
\<close>

definition cacheGet :: "int \<Rightarrow> int \<Rightarrow> 'd cache \<Rightarrow> string \<Rightarrow> 'd option" where
  "cacheGet ttl now cache key =
     (case cache key of
        None \<Rightarrow> None
      | Some cached \<Rightarrow> if now - timestamp cached < ttl then Some (data cached) else None)"

text \<open>\<open>cache.set(cacheKey, {data, timestamp: Date.now()})\<close>\<close>

definition cacheSet :: "'d cache \<Rightarrow> string \<Rightarrow> 'd \<Rightarrow> int \<Rightarrow> 'd cache" where
  "cacheSet cache key d now = cache(key \<mapsto> \<lparr>data = d, timestamp = now\<rparr>)"

text \<open>
  The three system prompts of the source are fixed texts; they are named here in place
  of their text: the report prompt with the sections CURRENT CONDITIONS to WHAT TO KNOW,
  the shorter report prompt with a three-day outlook, and the autocomplete prompt.
\<close>

datatype system_prompt = ComprehensiveReportPrompt | ConciseReportPrompt | AutocompletePrompt

text \<open>
  The request sent to the chat-completion API (the URL, the content type, the title
  header and the temperature of the weather routes are the same constants in every call).
\<close>

record upstream_request =
  authorization :: string
  http_referer :: string
  model :: string
  system_content :: system_prompt
  user_content :: string
  max_tokens :: nat
  timeout_ms :: nat

text \<open>
  What the upstream call does is an input of a handler. \<open>fetch\<close>, \<open>response.text()\<close>
  and \<open>response.json()\<close> either return or throw: a \<open>DOMException\<close> named TimeoutError
  when the abort signal fires, or some other error (a network failure, a body that is
  not JSON).
\<close>

datatype io_error = IoTimeout | IoFailure

record upstream_response =
  up_status :: nat
  up_text :: "io_error + string"
  up_json :: "io_error + json"

datatype fetch_outcome = Rejected io_error | Resolved upstream_response

text \<open>\<open>response.ok\<close>\<close>

definition ok :: "upstream_response \<Rightarrow> bool" where
  "ok r = (200 \<le> up_status r \<and> up_status r \<le> 299)"

text \<open>What a handler throws inside its \<open>try\<close> block.\<close>

datatype exn = ZodError | TimeoutError | OtherError

fun thrown :: "io_error \<Rightarrow> exn" where
  "thrown IoTimeout = TimeoutError"
| "thrown IoFailure = OtherError"

text \<open>
  A response of a route: \<open>NextResponse.json(body)\<close> has status 200,
  \<open>NextResponse.json(body, {status: n})\<close> has status \<open>n\<close>.
\<close>

record 'b response =
  status :: nat
  body :: 'b

definition NextResponse_json :: "'b \<Rightarrow> 'b response" where
  "NextResponse_json b = \<lparr>status = 200, body = b\<rparr>"

definition NextResponse_json_status :: "'b \<Rightarrow> nat \<Rightarrow> 'b response" where
  "NextResponse_json_status b n = \<lparr>status = n, body = b\<rparr>"

text \<open>
  One run of a handler: what it returns (or throws, inside \<open>try\<close>), the cache it leaves
  and the upstream requests it has sent.
\<close>

record ('r, 'd) run =
  returned :: 'r
  cache_after :: "'d cache"
  calls :: "upstream_request list"


section \<open>The weather route\<close>

text \<open>
  \<open>POST /api/weather\<close> as the source file \<^verbatim>\<open>src/unnamed/part_000\<close> has it, with the
  zip-only mode. The body of a response is \<open>{report, cached}\<close> or \<open>{error}\<close>.
\<close>

datatype weather_body = Report json bool | Error string

definition WEATHER_CACHE_TTL :: int where
  "WEATHER_CACHE_TTL = 15 * 60 * 1000"

text \<open>
  \<open>zip ? `...${sep}${zip}` : `...`\<close> for the optional zip of the parsed body: the text
  that a zip adds, nothing when it is missing or empty.
\<close>

fun zipSuffix :: "string \<Rightarrow> string option \<Rightarrow> string" where
  "zipSuffix sep None = []"
| "zipSuffix sep (Some z) = (if z = [] then [] else sep @ z)"

text \<open>
  The location named in the prompt and the cache key of a request body: the zip-only
  mode when \<open>body.zip && !body.city\<close>, the city and state mode otherwise. On \<open>null\<close>,
  \<open>body.zip\<close> throws a TypeError.
\<close>

definition locate :: "json \<Rightarrow> exn + (string \<times> string)" where
  "locate b =
     (if b = JNull then Inl OtherError
      else if truthy (getProp b ''zip'') \<and> \<not> truthy (getProp b ''city'') then
        (case zipOnlySchema b of
           None \<Rightarrow> Inl ZodError
         | Some z \<Rightarrow> Inr (''zip code '' @ z, ''zip-'' @ z))
      else
        (case cityStateSchema b of
           None \<Rightarrow> Inl ZodError
         | Some (city, state, z) \<Rightarrow>
             Inr (city @ '', '' @ state @ zipSuffix '' '' z,
                  toLowerCase city @ ''-'' @ state @ zipSuffix ''-'' z)))"

definition weatherRequest :: "env \<Rightarrow> string \<Rightarrow> string \<Rightarrow> upstream_request" where
  "weatherRequest e apiKey location =
     \<lparr>authorization = ''Bearer '' @ apiKey,
      http_referer = referer e,
      model = ''openai/gpt-4.1-nano'',
      system_content = ComprehensiveReportPrompt,
      user_content = ''Give me a comprehensive weather report for '' @ location @ ''.'',
      max_tokens = 1000,
      timeout_ms = 30000\<rparr>"

definition keyNotConfigured :: "weather_body response" where
  "keyNotConfigured =
     NextResponse_json_status
       (Error ''OpenRouter API key not configured. Add OPENROUTER_API_KEY to your environment variables.'')
       500"

definition upstreamError :: "nat \<Rightarrow> weather_body response" where
  "upstreamError n =
     NextResponse_json_status
       (Error (''Weather service returned an error ('' @ decimal n @ ''). Please try again.''))
       502"

definition noWeatherData :: "weather_body response" where
  "noWeatherData =
     NextResponse_json_status (Error ''No weather data received. Please try again.'') 502"

definition timedOut :: "weather_body response" where
  "timedOut =
     NextResponse_json_status
       (Error ''Request timed out. The weather service is taking too long to respond.'')
       504"

definition somethingWrong :: "weather_body response" where
  "somethingWrong =
     NextResponse_json_status (Error ''Something went wrong. Please try again.'') 500"

text \<open>
  The \<open>try\<close> block of \<open>POST\<close>, after the cache lookup has missed: the credential test,
  the upstream call, the reading of its response and the cache write.
\<close>

definition POST_miss ::
  "env \<Rightarrow> int \<Rightarrow> fetch_outcome \<Rightarrow> json cache \<Rightarrow> string \<Rightarrow> string
     \<Rightarrow> (exn + weather_body response, json) run" where
  "POST_miss e later fetched cache location cacheKey =
     (case configuredKey e of
        None \<Rightarrow> \<lparr>returned = Inr keyNotConfigured, cache_after = cache, calls = []\<rparr>
      | Some apiKey \<Rightarrow>
          (let sent = [weatherRequest e apiKey location] in
           case fetched of
             Rejected x \<Rightarrow> \<lparr>returned = Inl (thrown x), cache_after = cache, calls = sent\<rparr>
           | Resolved r \<Rightarrow>
               if \<not> ok r then
                 (case up_text r of
                    Inl x \<Rightarrow> \<lparr>returned = Inl (thrown x), cache_after = cache, calls = sent\<rparr>
                  | Inr errorBody \<Rightarrow>
                      \<lparr>returned = Inr (upstreamError (up_status r)), cache_after = cache,
                       calls = sent\<rparr>)
               else
                 (case up_json r of
                    Inl x \<Rightarrow> \<lparr>returned = Inl (thrown x), cache_after = cache, calls = sent\<rparr>
                  | Inr d \<Rightarrow>
                      if d = JNull then
                        \<lparr>returned = Inl OtherError, cache_after = cache, calls = sent\<rparr>
                      else
                        (case firstChoiceContent d of
                           None \<Rightarrow>
                             \<lparr>returned = Inr noWeatherData, cache_after = cache, calls = sent\<rparr>
                         | Some report \<Rightarrow>
                             if \<not> truthy (Some report) then
                               \<lparr>returned = Inr noWeatherData, cache_after = cache,
                                calls = sent\<rparr>
                             else
                               \<lparr>returned = Inr (NextResponse_json (Report report False)),
                                cache_after = cacheSet cache cacheKey report later,
                                calls = sent\<rparr>))))"

text \<open>
  The \<open>try\<close> block of \<open>POST\<close>. \<open>request\<close> is what \<open>request.json()\<close> gives, \<open>None\<close> when it
  throws (the body is not JSON); \<open>now\<close> is the clock at the cache lookup and \<open>later\<close> the
  clock at the cache write.
\<close>

definition POST_try ::
  "env \<Rightarrow> int \<Rightarrow> int \<Rightarrow> fetch_outcome \<Rightarrow> json cache \<Rightarrow> json option
     \<Rightarrow> (exn + weather_body response, json) run" where
  "POST_try e now later fetched cache request =
     (case request of
        None \<Rightarrow> \<lparr>returned = Inl OtherError, cache_after = cache, calls = []\<rparr>
      | Some b \<Rightarrow>
          (case locate b of
             Inl x \<Rightarrow> \<lparr>returned = Inl x, cache_after = cache, calls = []\<rparr>
           | Inr (location, cacheKey) \<Rightarrow>
               (case cacheGet WEATHER_CACHE_TTL now cache cacheKey of
                  Some report \<Rightarrow>
                    \<lparr>returned = Inr (NextResponse_json (Report report True)),
                     cache_after = cache, calls = []\<rparr>
                | None \<Rightarrow> POST_miss e later fetched cache location cacheKey)))"

text \<open>The \<open>catch\<close> block of \<open>POST\<close>, with the response to a \<open>ZodError\<close>.\<close>

definition invalidInput :: "weather_body response" where
  "invalidInput =
     NextResponse_json_status
       (Error ''Invalid input. Please provide a valid city/state or a 5-digit US zip code.'')
       400"

fun POST_catch :: "exn \<Rightarrow> weather_body response" where
  "POST_catch ZodError = invalidInput"
| "POST_catch TimeoutError = timedOut"
| "POST_catch OtherError = somethingWrong"

definition POST ::
  "env \<Rightarrow> int \<Rightarrow> int \<Rightarrow> fetch_outcome \<Rightarrow> json cache \<Rightarrow> json option
     \<Rightarrow> (weather_body response, json) run" where
  "POST e now later fetched cache request =
     (let r = POST_try e now later fetched cache request in
      \<lparr>returned = (case returned r of Inl x \<Rightarrow> POST_catch x | Inr resp \<Rightarrow> resp),
       cache_after = cache_after r,
       calls = calls r\<rparr>)"


section \<open>The weather route without zip codes\<close>

text \<open>
  The second implementation of the route, in \<^verbatim>\<open>src/unnamed/part_001\<close>: \<open>requestSchema\<close> in place of
  the two schemas, its own prompt, model and token budget, and its own message for a
  \<open>ZodError\<close>.
\<close>

definition weatherRequest_cityOnly :: "env \<Rightarrow> string \<Rightarrow> string \<Rightarrow> string \<Rightarrow> upstream_request" where
  "weatherRequest_cityOnly e apiKey city state =
     \<lparr>authorization = ''Bearer '' @ apiKey,
      http_referer = referer e,
      model = ''openai/chatgpt-4o-latest'',
      system_content = ConciseReportPrompt,
      user_content = ''What's the current weather in '' @ city @ '', '' @ state @ ''?'',
      max_tokens = 500,
      timeout_ms = 30000\<rparr>"

definition POST_cityOnly_try ::
  "env \<Rightarrow> int \<Rightarrow> int \<Rightarrow> fetch_outcome \<Rightarrow> json cache \<Rightarrow> json option
     \<Rightarrow> (exn + weather_body response, json) run" where
  "POST_cityOnly_try e now later fetched cache request =
     (case request of
        None \<Rightarrow> \<lparr>returned = Inl OtherError, cache_after = cache, calls = []\<rparr>
      | Some b \<Rightarrow>
          (case requestSchema b of
             None \<Rightarrow> \<lparr>returned = Inl ZodError, cache_after = cache, calls = []\<rparr>
           | Some (city, state) \<Rightarrow>
               (let cacheKey = toLowerCase city @ ''-'' @ state in
                case cacheGet WEATHER_CACHE_TTL now cache cacheKey of
                  Some report \<Rightarrow>
                    \<lparr>returned = Inr (NextResponse_json (Report report True)),
                     cache_after = cache, calls = []\<rparr>
                | None \<Rightarrow>
                    (case configuredKey e of
                       None \<Rightarrow>
                         \<lparr>returned = Inr keyNotConfigured, cache_after = cache, calls = []\<rparr>
                     | Some apiKey \<Rightarrow>
                         (let sent = [weatherRequest_cityOnly e apiKey city state] in
                          case fetched of
                            Rejected x \<Rightarrow>
                              \<lparr>returned = Inl (thrown x), cache_after = cache, calls = sent\<rparr>
                          | Resolved r \<Rightarrow>
                              if \<not> ok r then
                                (case up_text r of
                                   Inl x \<Rightarrow>
                                     \<lparr>returned = Inl (thrown x), cache_after = cache,
                                      calls = sent\<rparr>
                                 | Inr errorBody \<Rightarrow>
                                     \<lparr>returned = Inr (upstreamError (up_status r)),
                                      cache_after = cache, calls = sent\<rparr>)
                              else
                                (case up_json r of
                                   Inl x \<Rightarrow>
                                     \<lparr>returned = Inl (thrown x), cache_after = cache,
                                      calls = sent\<rparr>
                                 | Inr d \<Rightarrow>
                                     if d = JNull then
                                       \<lparr>returned = Inl OtherError, cache_after = cache,
                                        calls = sent\<rparr>
                                     else
                                       (case firstChoiceContent d of
                                          None \<Rightarrow>
                                            \<lparr>returned = Inr noWeatherData,
                                             cache_after = cache, calls = sent\<rparr>
                                        | Some report \<Rightarrow>
                                            if \<not> truthy (Some report) then
                                              \<lparr>returned = Inr noWeatherData,
                                               cache_after = cache, calls = sent\<rparr>
                                            else
                                              \<lparr>returned =
                                                 Inr (NextResponse_json (Report report False)),
                                               cache_after =
                                                 cacheSet cache cacheKey report later,
                                               calls = sent\<rparr>)))))))"

definition invalidInput_cityOnly :: "weather_body response" where
  "invalidInput_cityOnly =
     NextResponse_json_status
       (Error ''Invalid input. Please provide a valid city name and 2-letter state code.'')
       400"

fun POST_cityOnly_catch :: "exn \<Rightarrow> weather_body response" where
  "POST_cityOnly_catch ZodError = invalidInput_cityOnly"
| "POST_cityOnly_catch TimeoutError = timedOut"
| "POST_cityOnly_catch OtherError = somethingWrong"

definition POST_cityOnly ::
  "env \<Rightarrow> int \<Rightarrow> int \<Rightarrow> fetch_outcome \<Rightarrow> json cache \<Rightarrow> json option
     \<Rightarrow> (weather_body response, json) run" where
  "POST_cityOnly e now later fetched cache request =
     (let r = POST_cityOnly_try e now later fetched cache request in
      \<lparr>returned = (case returned r of Inl x \<Rightarrow> POST_cityOnly_catch x | Inr resp \<Rightarrow> resp),
       cache_after = cache_after r,
       calls = calls r\<rparr>)"

section \<open>The suggestion route\<close>

text \<open>\<open>GET /api/suggest\<close>, from \<^verbatim>\<open>src/src/app/api/suggest/route.ts\<close>.\<close>

definition SUGGEST_CACHE_TTL :: int where
  "SUGGEST_CACHE_TTL = 24 * 60 * 60 * 1000"

definition suggestRequest :: "env \<Rightarrow> string \<Rightarrow> string \<Rightarrow> upstream_request" where
  "suggestRequest e apiKey q =
     \<lparr>authorization = ''Bearer '' @ apiKey,
      http_referer = referer e,
      model = ''openai/gpt-4.1-nano'',
      system_content = AutocompletePrompt,
      user_content = q,
      max_tokens = 150,
      timeout_ms = 5000\<rparr>"

text \<open>
  \<open>content.replace(/^```(?:json)?\s*/, "")\<close>: an opening fence, with the word \<open>json\<close>
  and the white space after it, is removed from the start of the text.
\<close>

definition stripOpeningFence :: "string \<Rightarrow> string" where
  "stripOpeningFence s =
     (if take 3 s = ''```'' then
        (let t = drop 3 s in
         dropWhile isSpace (if take 4 t = ''json'' then drop 4 t else t))
      else s)"

text \<open>
  \<open>.replace(/\s*```$/, "")\<close>: a closing fence at the very end, with the white space
  before it, is removed.
\<close>

definition stripClosingFence :: "string \<Rightarrow> string" where
  "stripClosingFence s =
     (if take 3 (rev s) = ''```'' then rev (dropWhile isSpace (drop 3 (rev s))) else s)"

text \<open>
  The filter of the parsed array: \<open>typeof s === "string"\<close> and the shape
  \<open>/^.+,\s*[A-Z]{2}(\s+\d{5})?$/\<close>.
\<close>

fun isSuggestion :: "json \<Rightarrow> string option" where
  "isSuggestion (JStr s) = (if matches suggestionRegex s then Some s else None)"
| "isSuggestion _ = None"

definition validSuggestions :: "json list \<Rightarrow> string list" where
  "validSuggestions parsed = take 6 (List.map_filter isSuggestion parsed)"

text \<open>
  The \<open>try\<close> block of \<open>GET\<close>: \<open>Inl\<close> where it throws. \<open>JSON_parse\<close> is JavaScript's
  \<open>JSON.parse\<close>, \<open>None\<close> where it throws a SyntaxError.
\<close>

definition GET_try ::
  "(string \<Rightarrow> json option) \<Rightarrow> int \<Rightarrow> fetch_outcome \<Rightarrow> string list cache \<Rightarrow> string
     \<Rightarrow> exn + (string list response \<times> string list cache)" where
  "GET_try JSON_parse later fetched cache cacheKey =
     (case fetched of
        Rejected x \<Rightarrow> Inl (thrown x)
      | Resolved r \<Rightarrow>
          if \<not> ok r then Inr (NextResponse_json [], cache)
          else
            (case up_json r of
               Inl x \<Rightarrow> Inl (thrown x)
             | Inr d \<Rightarrow>
                 if d = JNull then Inl OtherError
                 else
                   (case firstChoiceContent d of
                      None \<Rightarrow> Inr (NextResponse_json [], cache)
                    | Some JNull \<Rightarrow> Inr (NextResponse_json [], cache)
                    | Some (JStr text) \<Rightarrow>
                        (let content = trim text in
                         if content = [] then Inr (NextResponse_json [], cache)
                         else
                           (let cleaned = trim (stripClosingFence (stripOpeningFence content)) in
                            case JSON_parse cleaned of
                              None \<Rightarrow> Inl OtherError
                            | Some (JArr parsed) \<Rightarrow>
                                (let suggestions = validSuggestions parsed in
                                 Inr (NextResponse_json suggestions,
                                      cacheSet cache cacheKey suggestions later))
                            | Some _ \<Rightarrow> Inr (NextResponse_json [], cache)))
                    | Some _ \<Rightarrow> Inl OtherError)))"

text \<open>
  \<open>GET\<close>: \<open>param\<close> is \<open>searchParams.get("q")\<close>, \<open>None\<close> when the URL has no \<open>q\<close>. A content
  that is neither a string nor \<open>null\<close> has no \<open>trim\<close> method, and calling it throws.
\<close>

definition GET ::
  "(string \<Rightarrow> json option) \<Rightarrow> env \<Rightarrow> int \<Rightarrow> int \<Rightarrow> fetch_outcome \<Rightarrow> string list cache
     \<Rightarrow> string option \<Rightarrow> (string list response, string list) run" where
  "GET JSON_parse e now later fetched cache param =
     (case map_option trim param of
        None \<Rightarrow> \<lparr>returned = NextResponse_json [], cache_after = cache, calls = []\<rparr>
      | Some q \<Rightarrow>
          if q = [] \<or> length q < 2 then
            \<lparr>returned = NextResponse_json [], cache_after = cache, calls = []\<rparr>
          else
            (let cacheKey = toLowerCase q in
             case cacheGet SUGGEST_CACHE_TTL now cache cacheKey of
               Some suggestions \<Rightarrow>
                 \<lparr>returned = NextResponse_json suggestions, cache_after = cache, calls = []\<rparr>
             | None \<Rightarrow>
                 (case configuredKey e of
                    None \<Rightarrow>
                      \<lparr>returned = NextResponse_json [], cache_after = cache, calls = []\<rparr>
                  | Some apiKey \<Rightarrow>
                      (case GET_try JSON_parse later fetched cache cacheKey of
                         Inl x \<Rightarrow>
                           \<lparr>returned = NextResponse_json [], cache_after = cache,
                            calls = [suggestRequest e apiKey q]\<rparr>
                       | Inr (resp, cache') \<Rightarrow>
                           \<lparr>returned = resp, cache_after = cache',
                            calls = [suggestRequest e apiKey q]\<rparr>))))"


section \<open>The location typed into the form\<close>

text \<open>
  \<open>handleSubmit\<close> of the page with suggestions (\<^verbatim>\<open>src/src/app/page.tsx\<close>, the
  second component), up to the request it sends.
  \<open>selectedCity\<close>, \<open>selectedState\<close> and \<open>selectedZip\<close> are the state left by a chosen
  suggestion (all empty after typing), \<open>query\<close> is the text of the input field.
\<close>

datatype form_error = InvalidLocation
  \<comment> \<open>\<open>setError("Enter a city name, zip code, or select from AI suggestions ...")\<close>\<close>

record requestBody =
  city :: "string option"
  state :: "string option"
  zip :: "string option"

text \<open>
  The values of \<open>city\<close>, \<open>state\<close> and \<open>zip\<close> after the parsing block, \<open>None\<close> where the
  handler sets the error and returns. The groups of \<open>/^([A-Z]{2})\s+(\d{5})$/\<close> are the
  first two and the last five characters of the match.
\<close>

definition resolveLocation ::
  "string \<Rightarrow> string \<Rightarrow> string \<Rightarrow> string \<Rightarrow> (string \<times> string \<times> string) option" where
  "resolveLocation selectedCity selectedState selectedZip query =
     (if selectedCity = [] \<or> selectedState = [] then
        (let trimmed = trim query in
         if matches zipRegex trimmed then Some ([], [], trimmed)
         else
           (let parsed =
              (case lastIndexOf trimmed CHR '','' of
                 None \<Rightarrow> (selectedCity, selectedState, selectedZip)
               | Some commaIdx \<Rightarrow>
                   if commaIdx > 0 then
                     (let c = trim (slice trimmed 0 commaIdx);
                          afterComma = toUpperCase (trim (sliceFrom trimmed (commaIdx + 1)))
                      in
                        if matches stateZipRegex afterComma then
                          (c, take 2 afterComma, drop (length afterComma - 5) afterComma)
                        else if length c > 0 \<and> length afterComma = 2 then
                          (c, afterComma, selectedZip)
                        else (selectedCity, selectedState, selectedZip))
                   else (selectedCity, selectedState, selectedZip))
            in
              (case parsed of
                 (c, s, z) \<Rightarrow> if c = [] \<and> s = [] \<and> z = [] then None else Some (c, s, z))))
      else Some (selectedCity, selectedState, selectedZip))"

text \<open>The request body: zip-only, or city and state with the zip when there is one.\<close>

definition buildRequestBody :: "string \<times> string \<times> string \<Rightarrow> requestBody" where
  "buildRequestBody l =
     (case l of
        (c, s, z) \<Rightarrow>
          if c \<noteq> [] \<and> s \<noteq> [] then
            \<lparr>city = Some c, state = Some s, zip = (if z \<noteq> [] then Some z else None)\<rparr>
          else if z \<noteq> [] then \<lparr>city = None, state = None, zip = Some z\<rparr>
          else \<lparr>city = None, state = None, zip = None\<rparr>)"

definition handleSubmit :: "string \<Rightarrow> string \<Rightarrow> string \<Rightarrow> string \<Rightarrow> form_error + requestBody" where
  "handleSubmit selectedCity selectedState selectedZip query =
     (case resolveLocation selectedCity selectedState selectedZip query of
        None \<Rightarrow> Inl InvalidLocation
      | Some l \<Rightarrow> Inr (buildRequestBody l))"

text \<open>\<open>JSON.stringify(requestBody)\<close> as the weather route reads it back.\<close>

definition bodyJson :: "requestBody \<Rightarrow> json" where
  "bodyJson b =
     JObj ((case city b of None \<Rightarrow> [] | Some c \<Rightarrow> [(''city'', JStr c)]) @
           (case state b of None \<Rightarrow> [] | Some s \<Rightarrow> [(''state'', JStr s)]) @
           (case zip b of None \<Rightarrow> [] | Some z \<Rightarrow> [(''zip'', JStr z)]))"

section \<open>Example inputs\<close>

text \<open>
  Concrete environments, upstream replies and a table for \<open>JSON.parse\<close>, on which the
  handlers are run.
\<close>

definition env0 :: env where
  "env0 = \<lparr>OPENROUTER_API_KEY = Some ''sk-test'', NEXT_PUBLIC_APP_URL = None\<rparr>"

definition envNoKey :: env where
  "envNoKey = \<lparr>OPENROUTER_API_KEY = None, NEXT_PUBLIC_APP_URL = None\<rparr>"

definition envPlaceholder :: env where
  "envPlaceholder =
     \<lparr>OPENROUTER_API_KEY = Some ''your_openrouter_api_key_here'', NEXT_PUBLIC_APP_URL = None\<rparr>"

text \<open>A chat completion whose first choice has the given text.\<close>

definition completion :: "string \<Rightarrow> json" where
  "completion str =
     JObj [(''choices'', JArr [JObj [(''message'', JObj [(''content'', JStr str)])]])]"

text \<open>An upstream reply with the given status and JSON body.\<close>

definition replied :: "nat \<Rightarrow> json \<Rightarrow> fetch_outcome" where
  "replied n d = Resolved \<lparr>up_status = n, up_text = Inr [], up_json = Inr d\<rparr>"

definition demoParse :: "string \<Rightarrow> json option" where
  \<open>demoParse s =
     (if s = ''["Denver, CO", "Denver", 7, "Denver, CO 80202"]'' then
        Some (JArr [JStr ''Denver, CO'', JStr ''Denver'', JNum 7, JStr ''Denver, CO 80202''])
      else if s = ''["Denver", 7]'' then Some (JArr [JStr ''Denver'', JNum 7])
      else if s = ''{"a": 1}'' then Some (JObj [(''a'', JNum 1)])
      else None)\<close>

text \<open>\<open>Array.isArray\<close>\<close>

fun isArray :: "json \<Rightarrow> bool" where
  "isArray (JArr xs) = True"
| "isArray _ = False"

text \<open>A list of suggestions of the right shape: every entry matches, at most six.\<close>

abbreviation shapedList :: "string list \<Rightarrow> bool" where
  "shapedList xs \<equiv> (\<forall>s \<in> set xs. matches suggestionRegex s) \<and> length xs \<le> 6"

text \<open>Request bodies and a cache for the weather route.\<close>

definition denverBody :: json where
  "denverBody = JObj [(''city'', JStr ''Denver''), (''state'', JStr ''CO'')]"

definition austinBody :: json where
  "austinBody = JObj [(''city'', JStr ''Austin''), (''state'', JStr ''tx'')]"

definition austinBodyUpper :: json where
  "austinBodyUpper = JObj [(''city'', JStr ''AUSTIN''), (''state'', JStr ''TX'')]"

definition zipBody :: json where
  "zipBody = JObj [(''zip'', JStr ''80202'')]"

definition badZipBody :: json where
  "badZipBody = JObj [(''city'', JStr ''Denver''), (''state'', JStr ''CO''), (''zip'', JStr ''abc'')]"

definition zzBody :: json where
  "zzBody = JObj [(''city'', JStr ''Denver''), (''state'', JStr ''zz'')]"

definition denverCache :: "json cache" where
  "denverCache = [''denver-CO'' \<mapsto> \<lparr>data = JStr ''Sunny, 70 F'', timestamp = 0\<rparr>]"

definition denCache :: "string list cache" where
  "denCache = [''den'' \<mapsto> \<lparr>data = [''Denver, CO''], timestamp = 0\<rparr>]"

text \<open>
  Two strings that differ only in the case of their letters: the same length, and at
  every position the same character or a letter and its other case.
\<close>

definition caseVariant :: "char \<Rightarrow> char \<Rightarrow> bool" where
  "caseVariant x y =
     (x = y \<or> (isLower x \<and> y = upperChar x) \<or> (isUpper x \<and> y = lowerChar x))"

definition sameUpToCase :: "string \<Rightarrow> string \<Rightarrow> bool" where
  "sameUpToCase a b = list_all2 caseVariant a b"

section \<open>Evaluation\<close>

lemma Times_numeral [simp]: "Times (numeral k) r = Seq r (Times (pred_numeral k) r)"
  by (simp add: numeral_eq_Suc)

lemma eq_char_of_iff: "(c = char_of n) = (take_bit 8 n = of_char c)"
  using char_of_eq_iff [of n c] by blast

lemmas char_defs = eq_char_of_iff isDigit_def isUpper_def isLower_def isSpace_def isLineTerminator_def code_def
  upperChar_def lowerChar_def char_of_eq_iff

lemmas string_defs = toUpperCase_def toLowerCase_def trim_def slice_def sliceFrom_def

lemmas regex_defs = zipRegex_def stateZipRegex_def suggestionRegex_def Plus_def Opt_def

lemmas suggest_defs = GET_def GET_try_def configuredKey_def cacheGet_def ok_def
  firstChoiceContent_def stripOpeningFence_def stripClosingFence_def validSuggestions_def
  List.map_filter_def cacheSet_def suggestRequest_def referer_def NextResponse_json_def Let_def


lemmas demo_defs = env0_def envNoKey_def envPlaceholder_def replied_def completion_def demoParse_def
  denverBody_def austinBody_def austinBodyUpper_def zipBody_def badZipBody_def zzBody_def denverCache_def denCache_def

lemmas response_defs = NextResponse_json_def NextResponse_json_status_def invalidInput_def
  invalidInput_cityOnly_def keyNotConfigured_def upstreamError_def noWeatherData_def
  timedOut_def somethingWrong_def

lemmas weather_defs = POST_def POST_try_def POST_miss_def locate_def weatherRequest_def
  POST_cityOnly_def POST_cityOnly_try_def weatherRequest_cityOnly_def
  z_city_def z_state_def z_zip_def US_STATES_def WEATHER_CACHE_TTL_def
  configuredKey_def cacheGet_def cacheSet_def ok_def firstChoiceContent_def referer_def Let_def

section \<open>The suggestion route: properties\<close>

lemma validSuggestions_shape:
  "s \<in> set (validSuggestions parsed) \<Longrightarrow> matches suggestionRegex s"
proof -
  assume "s \<in> set (validSuggestions parsed)"
  then have "s \<in> set (List.map_filter isSuggestion parsed)"
    unfolding validSuggestions_def by (rule in_set_takeD)
  then obtain j where "isSuggestion j = Some s"
    by (auto simp: List.map_filter_def)
  then show ?thesis
    by (cases j) (auto split: if_splits)
qed

lemma validSuggestions_length: "length (validSuggestions parsed) \<le> 6"
  by (simp add: validSuggestions_def)

lemma GET_try_Inr:
  assumes "GET_try J later fetched cache k = Inr (resp, cache')"
  shows "(resp = NextResponse_json [] \<and> cache' = cache) \<or>
         (\<exists>parsed. resp = NextResponse_json (validSuggestions parsed) \<and>
            cache' = cacheSet cache k (validSuggestions parsed) later)"
  using assms unfolding GET_try_def
  by (auto simp: Let_def split: fetch_outcome.splits if_splits sum.splits option.splits json.splits)

lemma body_NextResponse_json [simp]: "body (NextResponse_json b) = b"
  by (simp add: NextResponse_json_def)

lemma status_NextResponse_json [simp]: "status (NextResponse_json b) = 200"
  by (simp add: NextResponse_json_def)

lemma GET_cases:
  "(\<exists>sent. GET J e now later fetched cache param =
      \<lparr>returned = NextResponse_json [], cache_after = cache, calls = sent\<rparr>) \<or>
   (\<exists>q d. param = Some q \<and> cacheGet SUGGEST_CACHE_TTL now cache (toLowerCase (trim q)) = Some d \<and>
      GET J e now later fetched cache param =
      \<lparr>returned = NextResponse_json d, cache_after = cache, calls = []\<rparr>) \<or>
   (\<exists>q apiKey parsed. param = Some q \<and> configuredKey e = Some apiKey \<and>
      GET J e now later fetched cache param =
      \<lparr>returned = NextResponse_json (validSuggestions parsed),
       cache_after = cacheSet cache (toLowerCase (trim q)) (validSuggestions parsed) later,
       calls = [suggestRequest e apiKey (trim q)]\<rparr>)"
  unfolding GET_def
  by (auto simp: Let_def split: option.splits sum.splits dest!: GET_try_Inr)


lemma GET_hit:
  assumes "param = Some q" "2 \<le> length (trim q)"
    and "cacheGet SUGGEST_CACHE_TTL now cache (toLowerCase (trim q)) = Some d"
  shows "GET J e now later fetched cache param =
         \<lparr>returned = NextResponse_json d, cache_after = cache, calls = []\<rparr>"
  using assms by (auto simp: GET_def Let_def)

lemma GET_try_success:
  assumes "fetched = Resolved u" "ok u" "up_json u = Inr d"
    and "firstChoiceContent d = Some (JStr text)" "trim text \<noteq> []"
    and "J (trim (stripClosingFence (stripOpeningFence (trim text)))) = Some (JArr parsed)"
  shows "GET_try J later fetched cache k =
         Inr (NextResponse_json (validSuggestions parsed),
              cacheSet cache k (validSuggestions parsed) later)"
proof -
  have "d \<noteq> JNull"
    using assms(4) by (auto simp: firstChoiceContent_def)
  with assms show ?thesis
    by (simp add: GET_try_def Let_def)
qed

lemma GET_success:
  assumes "param = Some q" "2 \<le> length (trim q)"
    and "cacheGet SUGGEST_CACHE_TTL now cache (toLowerCase (trim q)) = None"
    and "configuredKey e = Some apiKey"
    and "fetched = Resolved u" "ok u" "up_json u = Inr d"
    and "firstChoiceContent d = Some (JStr text)" "trim text \<noteq> []"
    and "J (trim (stripClosingFence (stripOpeningFence (trim text)))) = Some (JArr parsed)"
  shows "GET J e now later fetched cache param =
         \<lparr>returned = NextResponse_json (validSuggestions parsed),
          cache_after = cacheSet cache (toLowerCase (trim q)) (validSuggestions parsed) later,
          calls = [suggestRequest e apiKey (trim q)]\<rparr>"
proof -
  have "trim q \<noteq> []" "\<not> length (trim q) < 2"
    using assms(2) by auto
  then show ?thesis
    using assms(1,3,4) GET_try_success [where J = J, OF assms(5-10)]
    by (simp add: GET_def Let_def)
qed

lemma GET_try_written:
  assumes "GET_try J later fetched cache k = Inr (resp, cache')" "cache' \<noteq> cache"
  shows "\<exists>u d text parsed. fetched = Resolved u \<and> ok u \<and> up_json u = Inr d \<and>
           firstChoiceContent d = Some (JStr text) \<and> trim text \<noteq> [] \<and>
           J (trim (stripClosingFence (stripOpeningFence (trim text)))) = Some (JArr parsed) \<and>
           resp = NextResponse_json (validSuggestions parsed) \<and>
           cache' = cacheSet cache k (validSuggestions parsed) later"
  using assms unfolding GET_try_def
  by (auto simp: Let_def split: fetch_outcome.splits if_splits sum.splits option.splits json.splits)

lemma GET_written:
  assumes "cache_after (GET J e now later fetched cache param) \<noteq> cache"
  shows "\<exists>q apiKey u d text parsed. param = Some q \<and> 2 \<le> length (trim q) \<and>
           cacheGet SUGGEST_CACHE_TTL now cache (toLowerCase (trim q)) = None \<and>
           configuredKey e = Some apiKey \<and>
           fetched = Resolved u \<and> ok u \<and> up_json u = Inr d \<and>
           firstChoiceContent d = Some (JStr text) \<and> trim text \<noteq> [] \<and>
           J (trim (stripClosingFence (stripOpeningFence (trim text)))) = Some (JArr parsed) \<and>
           GET J e now later fetched cache param =
             \<lparr>returned = NextResponse_json (validSuggestions parsed),
              cache_after = cacheSet cache (toLowerCase (trim q)) (validSuggestions parsed) later,
              calls = [suggestRequest e apiKey (trim q)]\<rparr>"
proof -
  from assms obtain q where q: "param = Some q"
    by (cases param) (auto simp: GET_def)
  from assms q have len: "2 \<le> length (trim q)"
    by (auto simp: GET_def split: if_splits)
  from assms q len have miss: "cacheGet SUGGEST_CACHE_TTL now cache (toLowerCase (trim q)) = None"
    by (auto simp: GET_def Let_def split: if_splits option.splits)
  from assms q len miss obtain apiKey where k: "configuredKey e = Some apiKey"
    by (cases "configuredKey e") (auto simp: GET_def Let_def split: if_splits)
  from assms q len miss k obtain resp cache' where
    t: "GET_try J later fetched cache (toLowerCase (trim q)) = Inr (resp, cache')" and "cache' \<noteq> cache"
    by (auto simp: GET_def Let_def split: if_splits sum.splits)
  from GET_try_written [where J = J, OF this] obtain u d str parsed where
    s: "fetched = Resolved u" "ok u" "up_json u = Inr d"
       "firstChoiceContent d = Some (JStr str)" "trim str \<noteq> []"
       "J (trim (stripClosingFence (stripOpeningFence (trim str)))) = Some (JArr parsed)"
    by blast
  show ?thesis
    using GET_success [where J = J, OF q len miss k s] q len miss k s by blast
qed


text \<open>
  C5: whenever the suggestion route has called the upstream service, the list it returns
  holds only strings that match \<open>/^.+,\s*[A-Z]{2}(\s+\d{5})?$/\<close> and has at most six
  entries. The same holds for an answer from the cache, and for the cache the route
  leaves, when the cache holds nothing but such lists (as the empty cache does).
\<close>

theorem suggestions_shape_and_bound:
  fixes J e now later fetched cache param
  defines "r \<equiv> GET J e now later fetched cache param"
  shows "(calls r \<noteq> [] \<longrightarrow> shapedList (body (returned r))) \<and>
         ((\<forall>c \<in> ran cache. shapedList (data c)) \<longrightarrow>
            shapedList (body (returned r)) \<and> (\<forall>c \<in> ran (cache_after r). shapedList (data c)))"
proof -
  have v: "shapedList (validSuggestions parsed)" for parsed
    using validSuggestions_shape validSuggestions_length by blast
  have g: "cacheGet ttl now cache k = Some d \<Longrightarrow> \<exists>c \<in> ran cache. d = data c" for ttl k d
    by (auto simp: cacheGet_def ran_def split: option.splits if_splits)
  have w: "c \<in> ran (cacheSet cache k d later) \<Longrightarrow> c \<in> ran cache \<or> data c = d" for c k d
    by (auto simp: cacheSet_def ran_def split: if_splits)
  from GET_cases [of J e now later fetched cache param]
  consider
    (failed) sent where "r = \<lparr>returned = NextResponse_json [], cache_after = cache, calls = sent\<rparr>"
  | (hit) q d where "cacheGet SUGGEST_CACHE_TTL now cache (toLowerCase (trim q)) = Some d"
      "r = \<lparr>returned = NextResponse_json d, cache_after = cache, calls = []\<rparr>"
  | (written) q apiKey parsed where
      "r = \<lparr>returned = NextResponse_json (validSuggestions parsed),
         cache_after = cacheSet cache (toLowerCase (trim q)) (validSuggestions parsed) later,
         calls = [suggestRequest e apiKey (trim q)]\<rparr>"
    unfolding r_def by blast
  then show ?thesis
  proof cases
    case failed
    then show ?thesis by simp
  next
    case hit
    from g [OF hit(1)] hit(2) show ?thesis by auto
  next
    case written
    have "shapedList (data c)"
      if "\<forall>c \<in> ran cache. shapedList (data c)"
        and "c \<in> ran (cacheSet cache (toLowerCase (trim q)) (validSuggestions parsed) later)"
      for c
      using w [OF that(2)] that(1) v [of parsed] by auto
    then show ?thesis
      unfolding written using v [of parsed] by auto
  qed
qed

theorem suggestions_shape_and_bound_witness:
  \<open>calls (GET demoParse env0 1000 1500
      (replied 200 (completion ''```json ["Denver, CO", "Denver", 7, "Denver, CO 80202"] ```''))
      Map.empty (Some '' Den '')) \<noteq> [] \<and>
   ran (Map.empty :: string list cache) = {} \<and>
   body (returned (GET demoParse env0 1000 1500
      (replied 200 (completion ''```json ["Denver, CO", "Denver", 7, "Denver, CO 80202"] ```''))
      Map.empty (Some '' Den ''))) = [''Denver, CO'', ''Denver, CO 80202''] \<and>
   list_all (matches suggestionRegex) (body (returned (GET demoParse env0 1000 1500
      (replied 200 (completion ''```json ["Denver, CO", "Denver", 7, "Denver, CO 80202"] ```''))
      Map.empty (Some '' Den '')))) \<and>
   length (body (returned (GET demoParse env0 1000 1500
      (replied 200 (completion ''```json ["Denver, CO", "Denver", 7, "Denver, CO 80202"] ```''))
      Map.empty (Some '' Den '')))) \<le> 6\<close>
  using suggestions_shape_and_bound [of demoParse env0 1000 1500
      \<open>replied 200 (completion ''```json ["Denver, CO", "Denver", 7, "Denver, CO 80202"] ```'')\<close>
      Map.empty \<open>Some '' Den ''\<close>]
  by (simp add: suggest_defs demo_defs char_defs string_defs regex_defs)

lemma GET_status: "status (returned (GET J e now later fetched cache param)) = 200"
  using GET_cases [of J e now later fetched cache param] by auto

lemma GET_try_failed:
  assumes "fetched = Rejected x \<or>
           (\<exists>u. fetched = Resolved u \<and>
              (\<not> ok u \<or>
               (\<exists>d str. up_json u = Inr d \<and> firstChoiceContent d = Some (JStr str) \<and>
                  (case J (trim (stripClosingFence (stripOpeningFence (trim str)))) of
                     None \<Rightarrow> True | Some v \<Rightarrow> \<not> isArray v))))"
  shows "case GET_try J later fetched cache k of
           Inl x \<Rightarrow> True
         | Inr (resp, cache') \<Rightarrow> resp = NextResponse_json [] \<and> cache' = cache"
  using assms unfolding GET_try_def
  by (auto simp: Let_def split: fetch_outcome.splits sum.splits option.splits json.splits)







section \<open>The weather route: properties\<close>

lemma responses_distinct:
  "distinct [invalidInput, keyNotConfigured, noWeatherData, timedOut, somethingWrong, upstreamError n]"
  by (simp add: response_defs)

lemma status_simps [simp]:
  "status invalidInput = 400" "status invalidInput_cityOnly = 400" "status keyNotConfigured = 500"
  "status (upstreamError n) = 502" "status noWeatherData = 502" "status timedOut = 504"
  "status somethingWrong = 500"
  by (simp_all add: response_defs)


lemma POST_hit:
  assumes "locate b = Inr (location, cacheKey)"
    and "cacheGet WEATHER_CACHE_TTL now cache cacheKey = Some report"
  shows "POST e now later fetched cache (Some b) =
         \<lparr>returned = NextResponse_json (Report report True), cache_after = cache, calls = []\<rparr>"
  using assms by (simp add: POST_def POST_try_def Let_def)

lemma POST_on_miss:
  assumes "locate b = Inr (location, cacheKey)"
    and "cacheGet WEATHER_CACHE_TTL now cache cacheKey = None"
  shows "POST e now later fetched cache (Some b) =
         \<lparr>returned = (case returned (POST_miss e later fetched cache location cacheKey) of
                        Inl x \<Rightarrow> POST_catch x | Inr resp \<Rightarrow> resp),
          cache_after = cache_after (POST_miss e later fetched cache location cacheKey),
          calls = calls (POST_miss e later fetched cache location cacheKey)\<rparr>"
  using assms by (simp add: POST_def POST_try_def Let_def)

lemma POST_rejected:
  assumes "request = None \<or> (\<exists>b x. request = Some b \<and> locate b = Inl x)"
  shows "cache_after (POST e now later fetched cache request) = cache"
    and "calls (POST e now later fetched cache request) = []"
  using assms by (auto simp: POST_def POST_try_def Let_def)

lemma POST_miss_no_key:
  assumes "configuredKey e = None"
  shows "POST_miss e later fetched cache location cacheKey =
         \<lparr>returned = Inr keyNotConfigured, cache_after = cache, calls = []\<rparr>"
  using assms by (simp add: POST_miss_def)

lemma POST_miss_calls:
  assumes "configuredKey e = Some apiKey"
  shows "calls (POST_miss e later fetched cache location cacheKey) =
         [weatherRequest e apiKey location]"
  using assms
  by (simp add: POST_miss_def Let_def
      split: fetch_outcome.splits sum.splits option.splits)

text \<open>What the miss path returns, case by case.\<close>

lemma POST_miss_returned:
  assumes "configuredKey e = Some apiKey"
  shows "returned (POST_miss e later fetched cache location cacheKey) =
    (case fetched of
       Rejected x \<Rightarrow> Inl (thrown x)
     | Resolved u \<Rightarrow>
         if \<not> ok u then
           (case up_text u of Inl x \<Rightarrow> Inl (thrown x) | Inr t \<Rightarrow> Inr (upstreamError (up_status u)))
         else
           (case up_json u of
              Inl x \<Rightarrow> Inl (thrown x)
            | Inr d \<Rightarrow>
                if d = JNull then Inl OtherError
                else if truthy (firstChoiceContent d)
                  then Inr (NextResponse_json (Report (the (firstChoiceContent d)) False))
                  else Inr noWeatherData))"
  using assms
  by (auto simp: POST_miss_def Let_def
      split: fetch_outcome.splits sum.splits option.splits)

lemma POST_miss_cache:
  "cache_after (POST_miss e later fetched cache location cacheKey) = cache \<or>
   (\<exists>report. returned (POST_miss e later fetched cache location cacheKey) =
        Inr (NextResponse_json (Report report False)) \<and>
      cache_after (POST_miss e later fetched cache location cacheKey) =
        cacheSet cache cacheKey report later)"
  by (auto simp: POST_miss_def Let_def
      split: fetch_outcome.splits sum.splits option.splits)


lemma POST_catch_not_keyNotConfigured: "POST_catch x \<noteq> keyNotConfigured"
  by (cases x) (simp_all add: response_defs)

lemma POST_cityOnly_catch_not_keyNotConfigured: "POST_cityOnly_catch x \<noteq> keyNotConfigured"
  by (cases x) (simp_all add: response_defs)

lemma not_keyNotConfigured:
  "upstreamError n \<noteq> keyNotConfigured" "noWeatherData \<noteq> keyNotConfigured"
  "NextResponse_json w \<noteq> keyNotConfigured" "somethingWrong \<noteq> keyNotConfigured"
  "invalidInput \<noteq> keyNotConfigured" "invalidInput_cityOnly \<noteq> keyNotConfigured"
  "timedOut \<noteq> keyNotConfigured"
  by (simp_all add: response_defs)

lemma POST_keyNotConfigured:
  assumes "returned (POST e now later fetched cache request) = keyNotConfigured"
  shows "configuredKey e = None \<and>
         (\<exists>b location cacheKey. request = Some b \<and> locate b = Inr (location, cacheKey) \<and>
            cacheGet WEATHER_CACHE_TTL now cache cacheKey = None)"
proof -
  from assms obtain b where b: "request = Some b"
    by (cases request) (auto simp: POST_def POST_try_def Let_def not_keyNotConfigured)
  from assms b obtain location cacheKey where l: "locate b = Inr (location, cacheKey)"
    by (cases "locate b")
       (auto simp: POST_def POST_try_def Let_def POST_catch_not_keyNotConfigured)
  from assms b l have m: "cacheGet WEATHER_CACHE_TTL now cache cacheKey = None"
    by (cases "cacheGet WEATHER_CACHE_TTL now cache cacheKey")
       (auto simp: POST_def POST_try_def Let_def not_keyNotConfigured)
  have "configuredKey e = None"
  proof (rule ccontr)
    assume "configuredKey e \<noteq> None"
    then obtain apiKey where k: "configuredKey e = Some apiKey" by blast
    from assms show False
      unfolding b POST_on_miss [OF l m]
      by (auto simp: POST_miss_returned [OF k] POST_catch_not_keyNotConfigured
            not_keyNotConfigured
          split: fetch_outcome.splits sum.splits if_splits)
  qed
  with b l m show ?thesis by blast
qed

lemma POST_cityOnly_hit:
  assumes "requestSchema b = Some (c, s)"
    and "cacheGet WEATHER_CACHE_TTL now cache (toLowerCase c @ ''-'' @ s) = Some report"
  shows "POST_cityOnly e now later fetched cache (Some b) =
         \<lparr>returned = NextResponse_json (Report report True), cache_after = cache, calls = []\<rparr>"
  using assms by (simp add: POST_cityOnly_def POST_cityOnly_try_def Let_def)

lemma POST_cityOnly_keyNotConfigured:
  assumes "returned (POST_cityOnly e now later fetched cache request) = keyNotConfigured"
  shows "configuredKey e = None \<and>
         (\<exists>b c s. request = Some b \<and> requestSchema b = Some (c, s) \<and>
            cacheGet WEATHER_CACHE_TTL now cache (toLowerCase c @ ''-'' @ s) = None)"
proof -
  from assms obtain b where b: "request = Some b"
    by (cases request)
       (auto simp: POST_cityOnly_def POST_cityOnly_try_def Let_def not_keyNotConfigured)
  from assms b obtain c s where l: "requestSchema b = Some (c, s)"
    by (cases "requestSchema b")
       (auto simp: POST_cityOnly_def POST_cityOnly_try_def Let_def not_keyNotConfigured
          POST_cityOnly_catch_not_keyNotConfigured)
  from assms b l have m: "cacheGet WEATHER_CACHE_TTL now cache (toLowerCase c @ ''-'' @ s) = None"
    by (cases "cacheGet WEATHER_CACHE_TTL now cache (toLowerCase c @ ''-'' @ s)")
       (auto simp: POST_cityOnly_def POST_cityOnly_try_def Let_def not_keyNotConfigured
          POST_cityOnly_catch_not_keyNotConfigured)
  have "configuredKey e = None"
  proof (rule ccontr)
    assume "configuredKey e \<noteq> None"
    then obtain apiKey where k: "configuredKey e = Some apiKey" by blast
    from assms b l m k show False
      by (auto simp: POST_cityOnly_def POST_cityOnly_try_def Let_def
            POST_cityOnly_catch_not_keyNotConfigured not_keyNotConfigured
          split: fetch_outcome.splits sum.splits if_splits option.splits)
  qed
  with b l m show ?thesis by blast
qed

text \<open>
  C9: when the cache holds a fresh entry under the key of a request, both
  implementations of the weather route return the stored report with \<open>cached = true\<close>,
  whatever the environment holds as API key (nothing, or the placeholder). The
  response for a missing credential is returned only after the cache lookup has missed.
\<close>

theorem cached_report_needs_no_credential:
  "(locate b = Inr (location, cacheKey) \<and>
    cacheGet WEATHER_CACHE_TTL now cache cacheKey = Some report \<longrightarrow>
      POST e now later fetched cache (Some b) =
        \<lparr>returned = NextResponse_json (Report report True), cache_after = cache, calls = []\<rparr>) \<and>
   (requestSchema b = Some (c, s) \<and>
    cacheGet WEATHER_CACHE_TTL now cache (toLowerCase c @ ''-'' @ s) = Some report \<longrightarrow>
      POST_cityOnly e now later fetched cache (Some b) =
        \<lparr>returned = NextResponse_json (Report report True), cache_after = cache, calls = []\<rparr>) \<and>
   (returned (POST e now later fetched cache request) = keyNotConfigured \<longrightarrow>
      configuredKey e = None \<and>
      (\<exists>b' location' cacheKey'. request = Some b' \<and> locate b' = Inr (location', cacheKey') \<and>
         cacheGet WEATHER_CACHE_TTL now cache cacheKey' = None)) \<and>
   (returned (POST_cityOnly e now later fetched cache request) = keyNotConfigured \<longrightarrow>
      configuredKey e = None \<and>
      (\<exists>b' c' s'. request = Some b' \<and> requestSchema b' = Some (c', s') \<and>
         cacheGet WEATHER_CACHE_TTL now cache (toLowerCase c' @ ''-'' @ s') = None))"
  using POST_hit [of b location cacheKey now cache report e later fetched]
    POST_cityOnly_hit [of b c s now cache report e later fetched]
    POST_keyNotConfigured [of e now later fetched cache request]
    POST_cityOnly_keyNotConfigured [of e now later fetched cache request]
  by blast

theorem cached_report_needs_no_credential_witness:
  "locate denverBody = Inr (''Denver, CO'', ''denver-CO'') \<and>
   requestSchema denverBody = Some (''Denver'', ''CO'') \<and>
   cacheGet WEATHER_CACHE_TTL 1000 denverCache ''denver-CO'' = Some (JStr ''Sunny, 70 F'') \<and>
   configuredKey envNoKey = None \<and> configuredKey envPlaceholder = None \<and>
   returned (POST envNoKey 1000 1001 (Rejected IoFailure) denverCache (Some denverBody)) =
     NextResponse_json (Report (JStr ''Sunny, 70 F'') True) \<and>
   returned (POST_cityOnly envPlaceholder 1000 1001 (Rejected IoFailure) denverCache
     (Some denverBody)) = NextResponse_json (Report (JStr ''Sunny, 70 F'') True) \<and>
   returned (POST envNoKey 900000 900001 (Rejected IoFailure) denverCache (Some denverBody)) =
     keyNotConfigured \<and>
   returned (POST_cityOnly envPlaceholder 900000 900001 (Rejected IoFailure) denverCache
     (Some denverBody)) = keyNotConfigured \<and>
   cacheGet WEATHER_CACHE_TTL 900000 denverCache ''denver-CO'' = None"
  using
    cached_report_needs_no_credential [of denverBody "''Denver, CO''" "''denver-CO''" 1000
      denverCache "JStr ''Sunny, 70 F''" envNoKey 1001 "Rejected IoFailure" "''Denver''" "''CO''"
      "Some denverBody"]
    cached_report_needs_no_credential [of denverBody "''Denver, CO''" "''denver-CO''" 1000
      denverCache "JStr ''Sunny, 70 F''" envPlaceholder 1001 "Rejected IoFailure" "''Denver''"
      "''CO''" "Some denverBody"]
    cached_report_needs_no_credential [of denverBody "''Denver, CO''" "''denver-CO''" 900000
      denverCache "JStr ''Sunny, 70 F''" envNoKey 900001 "Rejected IoFailure" "''Denver''" "''CO''"
      "Some denverBody"]
  by (simp add: weather_defs demo_defs char_defs string_defs regex_defs)

lemma cacheGet_Some_iff:
  "cacheGet ttl now m key = Some x \<longleftrightarrow>
   (\<exists>c. m key = Some c \<and> now - timestamp c < ttl \<and> data c = x)"
  by (auto simp: cacheGet_def split: option.splits)

lemma cacheGet_None_iff:
  "cacheGet ttl now m key = None \<longleftrightarrow>
   (case m key of None \<Rightarrow> True | Some c \<Rightarrow> ttl \<le> now - timestamp c)"
  by (auto simp: cacheGet_def split: option.splits)

lemma POST_miss_success_shape:
  assumes "configuredKey e = Some apiKey"
    and "returned (POST_miss e later fetched cache location cacheKey) = Inr resp"
    and "status resp = 200"
  shows "\<exists>report. resp = NextResponse_json (Report report False)"
  using assms(2,3) unfolding POST_miss_returned [OF assms(1)]
  by (auto split: fetch_outcome.splits sum.splits if_splits)

lemma POST_catch_status: "status (POST_catch x) \<noteq> 200"
  by (cases x) simp_all

lemma GET_miss_calls:
  assumes "2 \<le> length (trim q)"
    and "cacheGet SUGGEST_CACHE_TTL now cache (toLowerCase (trim q)) = None"
    and "configuredKey e = Some apiKey"
  shows "calls (GET J e now later fetched cache (Some q)) = [suggestRequest e apiKey (trim q)]"
proof -
  have "trim q \<noteq> []" "\<not> length (trim q) < 2"
    using assms(1) by auto
  then show ?thesis
    using assms(2,3) by (simp add: GET_def Let_def split: sum.splits prod.splits)
qed

text \<open>
  C1, as the code has it: the cache lookup of both routes gives the stored data exactly
  when \<open>now - entry.timestamp < TTL\<close>, with 15 minutes for the weather cache and 24
  hours for the suggestion cache. A weather request whose key holds an entry younger
  than 15 minutes returns the stored report with \<open>cached = true\<close> and calls nothing. One
  whose entry is 15 minutes old or older is a miss: with a configured API key it sends
  exactly one upstream request and a 200 response then has \<open>cached = false\<close>; without a
  configured key it sends none and returns the configuration error. The suggestion
  route does the same with its 24 hours.
\<close>

theorem cache_entry_fresh_within_ttl:
  "WEATHER_CACHE_TTL = 15 * 60 * 1000 \<and> SUGGEST_CACHE_TTL = 24 * 60 * 60 * 1000 \<and>
   (cacheGet ttl now m key = Some x \<longleftrightarrow>
      (\<exists>c. m key = Some c \<and> now - timestamp c < ttl \<and> data c = x)) \<and>
   (locate b = Inr (location, cacheKey) \<and> cache cacheKey = Some c \<longrightarrow>
      (now - timestamp c < 15 * 60 * 1000 \<longrightarrow>
         POST e now later fetched cache (Some b) =
           \<lparr>returned = NextResponse_json (Report (data c) True), cache_after = cache,
            calls = []\<rparr>) \<and>
      (15 * 60 * 1000 \<le> now - timestamp c \<and> configuredKey e = Some apiKey \<longrightarrow>
         calls (POST e now later fetched cache (Some b)) = [weatherRequest e apiKey location] \<and>
         (status (returned (POST e now later fetched cache (Some b))) = 200 \<longrightarrow>
            (\<exists>report. returned (POST e now later fetched cache (Some b)) =
               NextResponse_json (Report report False)))) \<and>
      (15 * 60 * 1000 \<le> now - timestamp c \<and> configuredKey e = None \<longrightarrow>
         calls (POST e now later fetched cache (Some b)) = [] \<and>
         returned (POST e now later fetched cache (Some b)) = keyNotConfigured)) \<and>
   (2 \<le> length (trim q) \<and> scache (toLowerCase (trim q)) = Some sc \<longrightarrow>
      (now - timestamp sc < 24 * 60 * 60 * 1000 \<longrightarrow>
         GET J e now later fetched scache (Some q) =
           \<lparr>returned = NextResponse_json (data sc), cache_after = scache, calls = []\<rparr>) \<and>
      (24 * 60 * 60 * 1000 \<le> now - timestamp sc \<and> configuredKey e = Some apiKey \<longrightarrow>
         calls (GET J e now later fetched scache (Some q)) =
           [suggestRequest e apiKey (trim q)]))"
proof -
  have w: "locate b = Inr (location, cacheKey) \<and> cache cacheKey = Some c \<longrightarrow>
      (now - timestamp c < 15 * 60 * 1000 \<longrightarrow>
         POST e now later fetched cache (Some b) =
           \<lparr>returned = NextResponse_json (Report (data c) True), cache_after = cache,
            calls = []\<rparr>) \<and>
      (15 * 60 * 1000 \<le> now - timestamp c \<and> configuredKey e = Some apiKey \<longrightarrow>
         calls (POST e now later fetched cache (Some b)) = [weatherRequest e apiKey location] \<and>
         (status (returned (POST e now later fetched cache (Some b))) = 200 \<longrightarrow>
            (\<exists>report. returned (POST e now later fetched cache (Some b)) =
               NextResponse_json (Report report False)))) \<and>
      (15 * 60 * 1000 \<le> now - timestamp c \<and> configuredKey e = None \<longrightarrow>
         calls (POST e now later fetched cache (Some b)) = [] \<and>
         returned (POST e now later fetched cache (Some b)) = keyNotConfigured)"
  proof (intro impI conjI; elim conjE)
    assume l: "locate b = Inr (location, cacheKey)" and c: "cache cacheKey = Some c"
    {
      assume "now - timestamp c < 15 * 60 * 1000"
      with c have "cacheGet WEATHER_CACHE_TTL now cache cacheKey = Some (data c)"
        by (simp add: cacheGet_def WEATHER_CACHE_TTL_def)
      from POST_hit [OF l this]
      show "POST e now later fetched cache (Some b) =
           \<lparr>returned = NextResponse_json (Report (data c) True), cache_after = cache,
            calls = []\<rparr>" .
    next
      assume "15 * 60 * 1000 \<le> now - timestamp c"
      with c have m: "cacheGet WEATHER_CACHE_TTL now cache cacheKey = None"
        by (simp add: cacheGet_def WEATHER_CACHE_TTL_def)
      note p = POST_on_miss [OF l m, of e later fetched]
      {
        assume k: "configuredKey e = Some apiKey"
        show "calls (POST e now later fetched cache (Some b)) = [weatherRequest e apiKey location]"
          by (simp add: p POST_miss_calls [OF k])
        assume "status (returned (POST e now later fetched cache (Some b))) = 200"
        then show "\<exists>report. returned (POST e now later fetched cache (Some b)) =
               NextResponse_json (Report report False)"
          using POST_miss_success_shape [OF k, of later fetched cache location cacheKey]
          by (cases "returned (POST_miss e later fetched cache location cacheKey)")
             (auto simp: p POST_catch_status)
      next
        assume k: "configuredKey e = None"
        show "calls (POST e now later fetched cache (Some b)) = []"
          "returned (POST e now later fetched cache (Some b)) = keyNotConfigured"
          by (simp_all add: p POST_miss_no_key [OF k])
      }
    }
  qed
  have s: "2 \<le> length (trim q) \<and> scache (toLowerCase (trim q)) = Some sc \<longrightarrow>
      (now - timestamp sc < 24 * 60 * 60 * 1000 \<longrightarrow>
         GET J e now later fetched scache (Some q) =
           \<lparr>returned = NextResponse_json (data sc), cache_after = scache, calls = []\<rparr>) \<and>
      (24 * 60 * 60 * 1000 \<le> now - timestamp sc \<and> configuredKey e = Some apiKey \<longrightarrow>
         calls (GET J e now later fetched scache (Some q)) =
           [suggestRequest e apiKey (trim q)])"
  proof (intro impI conjI; elim conjE)
    assume l: "2 \<le> length (trim q)" and c: "scache (toLowerCase (trim q)) = Some sc"
    {
      assume "now - timestamp sc < 24 * 60 * 60 * 1000"
      with c have "cacheGet SUGGEST_CACHE_TTL now scache (toLowerCase (trim q)) = Some (data sc)"
        by (simp add: cacheGet_def SUGGEST_CACHE_TTL_def)
      from GET_hit [OF refl l this]
      show "GET J e now later fetched scache (Some q) =
           \<lparr>returned = NextResponse_json (data sc), cache_after = scache, calls = []\<rparr>" .
    next
      assume "24 * 60 * 60 * 1000 \<le> now - timestamp sc" and k: "configuredKey e = Some apiKey"
      with c have "cacheGet SUGGEST_CACHE_TTL now scache (toLowerCase (trim q)) = None"
        by (simp add: cacheGet_def SUGGEST_CACHE_TTL_def)
      from GET_miss_calls [OF l this k]
      show "calls (GET J e now later fetched scache (Some q)) =
           [suggestRequest e apiKey (trim q)]" .
    }
  qed
  have t: "WEATHER_CACHE_TTL = 15 * 60 * 1000" "SUGGEST_CACHE_TTL = 24 * 60 * 60 * 1000"
    by (simp_all add: WEATHER_CACHE_TTL_def SUGGEST_CACHE_TTL_def)
  from t cacheGet_Some_iff [of ttl now m key x] w s show ?thesis
    by (intro conjI)
qed


theorem cache_entry_fresh_within_ttl_witness:
  "locate denverBody = Inr (''Denver, CO'', ''denver-CO'') \<and>
   denverCache ''denver-CO'' = Some \<lparr>data = JStr ''Sunny, 70 F'', timestamp = 0\<rparr> \<and>
   cacheGet WEATHER_CACHE_TTL 899999 denverCache ''denver-CO'' = Some (JStr ''Sunny, 70 F'') \<and>
   returned (POST envNoKey 899999 900001 (replied 200 (completion ''Rain'')) denverCache
     (Some denverBody)) = NextResponse_json (Report (JStr ''Sunny, 70 F'') True) \<and>
   calls (POST envNoKey 899999 900001 (replied 200 (completion ''Rain'')) denverCache
     (Some denverBody)) = [] \<and>
   configuredKey env0 = Some ''sk-test'' \<and>
   calls (POST env0 900000 900001 (replied 200 (completion ''Rain'')) denverCache
     (Some denverBody)) = [weatherRequest env0 ''sk-test'' ''Denver, CO''] \<and>
   returned (POST env0 900000 900001 (replied 200 (completion ''Rain'')) denverCache
     (Some denverBody)) = NextResponse_json (Report (JStr ''Rain'') False) \<and>
   returned (POST envNoKey 900000 900001 (replied 200 (completion ''Rain'')) denverCache
     (Some denverBody)) = keyNotConfigured \<and>
   denCache (toLowerCase (trim ''Den'')) = Some \<lparr>data = [''Denver, CO''], timestamp = 0\<rparr> \<and>
   body (returned (GET demoParse envNoKey 86399999 86400000 (Rejected IoFailure) denCache
     (Some ''Den''))) = [''Denver, CO''] \<and>
   calls (GET demoParse env0 86400000 86400001 (Rejected IoFailure) denCache (Some ''Den'')) =
     [suggestRequest env0 ''sk-test'' ''Den'']"
  using
    cache_entry_fresh_within_ttl [where ttl = WEATHER_CACHE_TTL and now = 899999
      and m = denverCache and key = "''denver-CO''" and x = "JStr ''Sunny, 70 F''"
      and b = denverBody and location = "''Denver, CO''" and cacheKey = "''denver-CO''"
      and cache = denverCache and c = "\<lparr>data = JStr ''Sunny, 70 F'', timestamp = 0\<rparr>"
      and e = envNoKey and later = 900001 and fetched = "replied 200 (completion ''Rain'')"
      and q = "''Den''" and scache = denCache
      and sc = "\<lparr>data = [''Denver, CO''], timestamp = 0\<rparr>" and J = demoParse]
    cache_entry_fresh_within_ttl [where ttl = WEATHER_CACHE_TTL and now = 900000
      and m = denverCache and key = "''denver-CO''" and x = "JStr ''Sunny, 70 F''"
      and b = denverBody and location = "''Denver, CO''" and cacheKey = "''denver-CO''"
      and cache = denverCache and c = "\<lparr>data = JStr ''Sunny, 70 F'', timestamp = 0\<rparr>"
      and e = env0 and apiKey = "''sk-test''" and later = 900001
      and fetched = "replied 200 (completion ''Rain'')"
      and q = "''Den''" and scache = denCache
      and sc = "\<lparr>data = [''Denver, CO''], timestamp = 0\<rparr>" and J = demoParse]
    cache_entry_fresh_within_ttl [where ttl = WEATHER_CACHE_TTL and now = 900000
      and m = denverCache and key = "''denver-CO''" and x = "JStr ''Sunny, 70 F''"
      and b = denverBody and location = "''Denver, CO''" and cacheKey = "''denver-CO''"
      and cache = denverCache and c = "\<lparr>data = JStr ''Sunny, 70 F'', timestamp = 0\<rparr>"
      and e = envNoKey and later = 900001 and fetched = "replied 200 (completion ''Rain'')"
      and q = "''Den''" and scache = denCache
      and sc = "\<lparr>data = [''Denver, CO''], timestamp = 0\<rparr>" and J = demoParse]
    cache_entry_fresh_within_ttl [where ttl = SUGGEST_CACHE_TTL and now = 86399999
      and m = denCache and key = "''den''" and x = "[''Denver, CO'']"
      and b = denverBody and location = "''Denver, CO''" and cacheKey = "''denver-CO''"
      and cache = denverCache and c = "\<lparr>data = JStr ''Sunny, 70 F'', timestamp = 0\<rparr>"
      and e = envNoKey and later = 86400000 and fetched = "Rejected IoFailure"
      and q = "''Den''" and scache = denCache
      and sc = "\<lparr>data = [''Denver, CO''], timestamp = 0\<rparr>" and J = demoParse]
    cache_entry_fresh_within_ttl [where ttl = SUGGEST_CACHE_TTL and now = 86400000
      and m = denCache and key = "''den''" and x = "[''Denver, CO'']"
      and b = denverBody and location = "''Denver, CO''" and cacheKey = "''denver-CO''"
      and cache = denverCache and c = "\<lparr>data = JStr ''Sunny, 70 F'', timestamp = 0\<rparr>"
      and e = env0 and apiKey = "''sk-test''" and later = 86400001
      and fetched = "Rejected IoFailure"
      and q = "''Den''" and scache = denCache
      and sc = "\<lparr>data = [''Denver, CO''], timestamp = 0\<rparr>" and J = demoParse]
  by (simp add: weather_defs suggest_defs demo_defs char_defs string_defs regex_defs)

text \<open>
  C1 as stated fails: the entry is exactly 15 minutes old, so the request is a miss,
  but no API key is configured and the handler returns status 500 without an upstream
  call.
\<close>

theorem stale_entry_without_credential_counterexample:
  "locate denverBody = Inr (''Denver, CO'', ''denver-CO'') \<and>
   denverCache ''denver-CO'' = Some \<lparr>data = JStr ''Sunny, 70 F'', timestamp = 0\<rparr> \<and>
   \<not> (900000 - 0 < WEATHER_CACHE_TTL) \<and>
   calls (POST envNoKey 900000 900001 (replied 200 (completion ''Rain'')) denverCache
     (Some denverBody)) = [] \<and>
   length (calls (POST envNoKey 900000 900001 (replied 200 (completion ''Rain'')) denverCache
     (Some denverBody))) \<noteq> 1 \<and>
   status (returned (POST envNoKey 900000 900001 (replied 200 (completion ''Rain''))
     denverCache (Some denverBody))) = 500"
  by (simp add: weather_defs response_defs demo_defs char_defs string_defs regex_defs)

lemma POST_catch_cases:
  "POST_catch x = invalidInput \<or> POST_catch x = timedOut \<or> POST_catch x = somethingWrong"
  by (cases x) simp_all

lemma POST_calls_le: "length (calls (POST e now later fetched cache request)) \<le> 1"
  by (auto simp: POST_def POST_try_def POST_miss_def Let_def
      split: option.splits sum.splits prod.splits fetch_outcome.splits)

lemma POST_returned_cases:
  "returned (POST e now later fetched cache request) = invalidInput \<or>
   returned (POST e now later fetched cache request) = keyNotConfigured \<or>
   (\<exists>n. returned (POST e now later fetched cache request) = upstreamError n) \<or>
   returned (POST e now later fetched cache request) = noWeatherData \<or>
   returned (POST e now later fetched cache request) = timedOut \<or>
   returned (POST e now later fetched cache request) = somethingWrong \<or>
   (\<exists>report c. returned (POST e now later fetched cache request) =
      NextResponse_json (Report report c))"
proof (cases request)
  case None
  then show ?thesis by (simp add: POST_def POST_try_def Let_def)
next
  case (Some b)
  show ?thesis
  proof (cases "locate b")
    case (Inl x)
    with Some POST_catch_cases [of x] show ?thesis
      by (auto simp: POST_def POST_try_def Let_def)
  next
    case (Inr p)
    then obtain location cacheKey where l: "locate b = Inr (location, cacheKey)"
      by (cases p) auto
    show ?thesis
    proof (cases "cacheGet WEATHER_CACHE_TTL now cache cacheKey")
      case (Some report)
      from POST_hit [OF l this] \<open>request = Some b\<close> show ?thesis by auto
    next
      case None
      note p = POST_on_miss [OF l None, of e later fetched]
      show ?thesis
      proof (cases "configuredKey e")
        case None
        then show ?thesis
          unfolding \<open>request = Some b\<close> p by (simp add: POST_miss_no_key)
      next
        case (Some apiKey)
        have "\<And>x. POST_catch (thrown x) = timedOut \<or> POST_catch (thrown x) = somethingWrong"
          subgoal for x by (cases x) simp_all
          done
        then show ?thesis
          unfolding \<open>request = Some b\<close> p POST_miss_returned [OF Some]
          by (auto split: fetch_outcome.splits sum.splits)
      qed
    qed
  qed
qed





text \<open>
  C2: the state of an accepted city and state body is, upper-cased, one of the 51 codes,
  and the zip of an accepted zip-only body has five digits. The zip that comes with a
  city and a state is not checked: \<open>cityStateSchema\<close> takes any string, where
  \<open>zipOnlySchema\<close> rejects the same string. The body
  \<open>{city: "Denver", state: "CO", zip: "abc"}\<close> is accepted, and \<open>abc\<close> goes into the
  prompt and the cache key.
\<close>

theorem zip_not_validated_beside_city:
  "cityStateSchema badZipBody = Some (''Denver'', ''CO'', Some ''abc'') \<and>
   \<not> matches zipRegex ''abc'' \<and>
   zipOnlySchema (JObj [(''zip'', JStr ''abc'')]) = None \<and>
   locate badZipBody = Inr (''Denver, CO abc'', ''denver-CO-abc'') \<and>
   returned (POST env0 0 1 (replied 200 (completion ''Rain'')) Map.empty (Some badZipBody)) =
     NextResponse_json (Report (JStr ''Rain'') False) \<and>
   status (returned (POST env0 0 1 (replied 200 (completion ''Rain'')) Map.empty
     (Some badZipBody))) = 200"
  by (simp add: weather_defs demo_defs char_defs string_defs regex_defs)

lemma accepted_state_recognized:
  assumes "cityStateSchema b = Some (c, s, z)"
  shows "s \<in> set US_STATES \<and> (\<exists>raw. getProp b ''state'' = Some (JStr raw) \<and> s = toUpperCase raw)"
proof -
  from assms obtain kvs where b: "b = JObj kvs"
    by (cases b) auto
  from assms [unfolded b] have "z_state (map_of kvs ''state'') = Some s"
    by (auto split: option.splits)
  then show ?thesis
    unfolding b z_state_def
    by (cases "map_of kvs ''state''" rule: z_string.cases) (auto split: if_splits)
qed

lemma US_STATES_51: "length US_STATES = 51 \<and> distinct US_STATES"
  by (simp add: US_STATES_def)

lemma unknown_state_rejected:
  "status (returned (POST e now later fetched cache
     (Some (JObj [(''city'', JStr ''Denver''), (''state'', JStr st)])))) = 400"
  if "st \<in> {''ZZ'', ''zz'', ''Zz'', ''zZ''}"
  using that
  by (auto simp add: weather_defs response_defs char_defs string_defs)

section \<open>The cache key\<close>

lemma caseVariant_lower: "caseVariant x y \<Longrightarrow> lowerChar x = lowerChar y"
  by (auto simp: caseVariant_def lowerChar_def upperChar_def isUpper_def isLower_def code_def)

lemma caseVariant_upper: "caseVariant x y \<Longrightarrow> upperChar x = upperChar y"
  by (auto simp: caseVariant_def lowerChar_def upperChar_def isUpper_def isLower_def code_def)

lemma sameUpToCase_lower: "sameUpToCase a b \<Longrightarrow> toLowerCase a = toLowerCase b"
  unfolding sameUpToCase_def toLowerCase_def
  by (induction a b rule: list_all2_induct) (simp_all add: caseVariant_lower)

lemma sameUpToCase_upper: "sameUpToCase a b \<Longrightarrow> toUpperCase a = toUpperCase b"
  unfolding sameUpToCase_def toUpperCase_def
  by (induction a b rule: list_all2_induct) (simp_all add: caseVariant_upper)

lemma sameUpToCase_length: "sameUpToCase a b \<Longrightarrow> length a = length b"
  unfolding sameUpToCase_def by (rule list_all2_lengthD)

lemma sameUpToCase_cases: "sameUpToCase a (toUpperCase a)" "sameUpToCase a (toLowerCase a)"
  unfolding sameUpToCase_def toUpperCase_def toLowerCase_def
  by (induction a) (auto simp: caseVariant_def upperChar_def lowerChar_def isUpper_def isLower_def)


lemma locate_city_state:
  assumes "map_of kvs ''city'' = Some (JStr c)" "c \<noteq> []"
    and "map_of kvs ''state'' = Some (JStr s)"
  shows "locate (JObj kvs) =
    (if length c \<le> 100 \<and> toUpperCase s \<in> set US_STATES then
       (case z_string_optional (map_of kvs ''zip'') of
          None \<Rightarrow> Inl ZodError
        | Some z \<Rightarrow>
            Inr (c @ '', '' @ toUpperCase s @ zipSuffix '' '' z,
                 toLowerCase c @ ''-'' @ toUpperCase s @ zipSuffix ''-'' z))
     else Inl ZodError)"
proof -
  have "1 \<le> length c"
    using assms(2) by (cases c) simp_all
  then show ?thesis
    using assms
    by (auto simp: locate_def z_city_def z_state_def split: option.splits)
qed



section \<open>The two implementations of the weather route\<close>

lemma locate_without_zip:
  assumes "b \<noteq> JNull" and "getProp b ''zip'' = None"
  shows "locate b =
    (case requestSchema b of
       None \<Rightarrow> Inl ZodError
     | Some (c, s) \<Rightarrow> Inr (c @ '', '' @ s, toLowerCase c @ ''-'' @ s))"
proof (cases b)
  case (JObj kvs)
  with assms(2) have "map_of kvs ''zip'' = None" by simp
  then show ?thesis
    unfolding JObj locate_def
    by (auto split: option.splits)
qed (use assms in \<open>simp_all add: locate_def\<close>)

lemma catch_agree:
  "status (POST_catch x) = status (POST_cityOnly_catch x)"
  "status (POST_catch x) \<noteq> 400 \<Longrightarrow> POST_catch x = POST_cityOnly_catch x"
  "status (POST_catch x) = 400 \<Longrightarrow>
     POST_catch x = invalidInput \<and> POST_cityOnly_catch x = invalidInput_cityOnly"
  by (cases x; simp)+

lemma tries_agree:
  assumes "requestSchema b = Some (c, s)"
    and "locate b = Inr (c @ '', '' @ s, toLowerCase c @ ''-'' @ s)"
  shows "returned (POST_try e now later fetched cache (Some b)) =
         returned (POST_cityOnly_try e now later fetched cache (Some b))"
    and "cache_after (POST_try e now later fetched cache (Some b)) =
         cache_after (POST_cityOnly_try e now later fetched cache (Some b))"
    and "(calls (POST_try e now later fetched cache (Some b)) = [] \<and>
          calls (POST_cityOnly_try e now later fetched cache (Some b)) = []) \<or>
         (\<exists>apiKey.
            calls (POST_try e now later fetched cache (Some b)) =
              [weatherRequest e apiKey (c @ '', '' @ s)] \<and>
            calls (POST_cityOnly_try e now later fetched cache (Some b)) =
              [weatherRequest_cityOnly e apiKey c s])"
  using assms
  by (auto simp: POST_try_def POST_miss_def POST_cityOnly_try_def Let_def
      split: option.splits fetch_outcome.splits sum.splits)


lemma POST_miss_Inr_not_400:
  assumes "returned (POST_miss e later fetched cache location cacheKey) = Inr resp"
  shows "status resp \<noteq> 400"
proof (cases "configuredKey e")
  case None
  with assms show ?thesis by (auto simp: POST_miss_no_key)
next
  case (Some apiKey)
  from assms show ?thesis
    unfolding POST_miss_returned [OF Some]
    by (auto split: fetch_outcome.splits sum.splits if_splits)
qed

lemma POST_try_Inr_not_400:
  assumes "returned (POST_try e now later fetched cache request) = Inr resp"
  shows "status resp \<noteq> 400"
proof (cases request)
  case None
  with assms show ?thesis by (simp add: POST_try_def)
next
  case (Some b)
  show ?thesis
  proof (cases "locate b")
    case (Inl x)
    with assms Some show ?thesis by (simp add: POST_try_def)
  next
    case (Inr p)
    obtain location cacheKey where p: "p = (location, cacheKey)" by (cases p)
    show ?thesis
    proof (cases "cacheGet WEATHER_CACHE_TTL now cache cacheKey")
      case None
      with assms Some Inr p
      have "returned (POST_miss e later fetched cache location cacheKey) = Inr resp"
        by (simp add: POST_try_def)
      then show ?thesis by (rule POST_miss_Inr_not_400)
    next
      case (Some report)
      with assms \<open>request = Some b\<close> Inr p show ?thesis
        by (auto simp add: POST_try_def)
    qed
  qed
qed

text \<open>
  C8, as the code has it: on a request whose body is not JSON, or is a JSON value other
  than \<open>null\<close> without a \<open>zip\<close> property, the two implementations accept the same bodies
  with the same cache key, leave the same cache, and return the same response, except
  that their messages for a schema failure (status 400) differ. When one calls the
  upstream service so does the other, with the same authorization, referer and timeout;
  the requests differ in the model, the system prompt, the wording of the user message
  and the token budget (1000 against 500).
\<close>

theorem implementations_agree_without_zip:
  fixes e now later fetched cache request
  defines "r0 \<equiv> POST e now later fetched cache request"
    and "r1 \<equiv> POST_cityOnly e now later fetched cache request"
  assumes "case request of None \<Rightarrow> True | Some b \<Rightarrow> b \<noteq> JNull \<and> getProp b ''zip'' = None"
  shows
   "(case request of
       None \<Rightarrow> True
     | Some b \<Rightarrow>
         locate b =
           (case requestSchema b of
              None \<Rightarrow> Inl ZodError
            | Some (c, s) \<Rightarrow> Inr (c @ '', '' @ s, toLowerCase c @ ''-'' @ s))) \<and>
    cache_after r0 = cache_after r1 \<and>
    status (returned r0) = status (returned r1) \<and>
    (status (returned r0) \<noteq> 400 \<longrightarrow> returned r0 = returned r1) \<and>
    (status (returned r0) = 400 \<longrightarrow>
       returned r0 = invalidInput \<and> returned r1 = invalidInput_cityOnly) \<and>
    ((calls r0 = [] \<and> calls r1 = []) \<or>
     (\<exists>apiKey c s. calls r0 = [weatherRequest e apiKey (c @ '', '' @ s)] \<and>
        calls r1 = [weatherRequest_cityOnly e apiKey c s])) \<and>
    authorization (weatherRequest e k (c @ '', '' @ s)) =
      authorization (weatherRequest_cityOnly e k c s) \<and>
    http_referer (weatherRequest e k (c @ '', '' @ s)) =
      http_referer (weatherRequest_cityOnly e k c s) \<and>
    timeout_ms (weatherRequest e k (c @ '', '' @ s)) =
      timeout_ms (weatherRequest_cityOnly e k c s) \<and>
    model (weatherRequest e k (c @ '', '' @ s)) = ''openai/gpt-4.1-nano'' \<and>
    model (weatherRequest_cityOnly e k c s) = ''openai/chatgpt-4o-latest'' \<and>
    system_content (weatherRequest e k (c @ '', '' @ s)) = ComprehensiveReportPrompt \<and>
    system_content (weatherRequest_cityOnly e k c s) = ConciseReportPrompt \<and>
    user_content (weatherRequest e k (c @ '', '' @ s)) =
      ''Give me a comprehensive weather report for '' @ c @ '', '' @ s @ ''.'' \<and>
    user_content (weatherRequest_cityOnly e k c s) =
      ''What's the current weather in '' @ c @ '', '' @ s @ ''?'' \<and>
    max_tokens (weatherRequest e k (c @ '', '' @ s)) = 1000 \<and>
    max_tokens (weatherRequest_cityOnly e k c s) = 500"
proof -
  have fields:
    "authorization (weatherRequest e k (c @ '', '' @ s)) =
       authorization (weatherRequest_cityOnly e k c s)"
    "http_referer (weatherRequest e k (c @ '', '' @ s)) =
       http_referer (weatherRequest_cityOnly e k c s)"
    "timeout_ms (weatherRequest e k (c @ '', '' @ s)) =
       timeout_ms (weatherRequest_cityOnly e k c s)"
    "model (weatherRequest e k (c @ '', '' @ s)) = ''openai/gpt-4.1-nano''"
    "model (weatherRequest_cityOnly e k c s) = ''openai/chatgpt-4o-latest''"
    "system_content (weatherRequest e k (c @ '', '' @ s)) = ComprehensiveReportPrompt"
    "system_content (weatherRequest_cityOnly e k c s) = ConciseReportPrompt"
    "user_content (weatherRequest e k (c @ '', '' @ s)) =
       ''Give me a comprehensive weather report for '' @ c @ '', '' @ s @ ''.''"
    "user_content (weatherRequest_cityOnly e k c s) =
       ''What's the current weather in '' @ c @ '', '' @ s @ ''?''"
    "max_tokens (weatherRequest e k (c @ '', '' @ s)) = 1000"
    "max_tokens (weatherRequest_cityOnly e k c s) = 500"
    by (simp_all add: weatherRequest_def weatherRequest_cityOnly_def)
  have main:
    "(case request of
       None \<Rightarrow> True
     | Some b \<Rightarrow>
         locate b =
           (case requestSchema b of
              None \<Rightarrow> Inl ZodError
            | Some (c, s) \<Rightarrow> Inr (c @ '', '' @ s, toLowerCase c @ ''-'' @ s))) \<and>
    cache_after r0 = cache_after r1 \<and>
    status (returned r0) = status (returned r1) \<and>
    (status (returned r0) \<noteq> 400 \<longrightarrow> returned r0 = returned r1) \<and>
    (status (returned r0) = 400 \<longrightarrow>
       returned r0 = invalidInput \<and> returned r1 = invalidInput_cityOnly) \<and>
    ((calls r0 = [] \<and> calls r1 = []) \<or>
     (\<exists>apiKey c s. calls r0 = [weatherRequest e apiKey (c @ '', '' @ s)] \<and>
        calls r1 = [weatherRequest_cityOnly e apiKey c s]))"
  proof (cases request)
    case None
    then show ?thesis
      by (simp add: r0_def r1_def POST_def POST_try_def POST_cityOnly_def
          POST_cityOnly_try_def Let_def)
  next
    case (Some b)
    with assms(3) have b: "b \<noteq> JNull" "getProp b ''zip'' = None" by simp_all
    note l = locate_without_zip [OF b]
    show ?thesis
    proof (cases "requestSchema b")
      case None
      with l have "locate b = Inl ZodError" by simp
      with None \<open>request = Some b\<close> show ?thesis
        by (simp add: r0_def r1_def POST_def POST_try_def POST_cityOnly_def
            POST_cityOnly_try_def Let_def)
    next
      case (Some p)
      then obtain c s where p: "requestSchema b = Some (c, s)"
        by (cases p) auto
      with l have l': "locate b = Inr (c @ '', '' @ s, toLowerCase c @ ''-'' @ s)" by simp
      note t = tries_agree [OF p l', of e now later fetched cache]
      have ret: "returned r0 =
          (case returned (POST_try e now later fetched cache (Some b)) of
             Inl x \<Rightarrow> POST_catch x | Inr resp \<Rightarrow> resp)"
        "returned r1 =
          (case returned (POST_try e now later fetched cache (Some b)) of
             Inl x \<Rightarrow> POST_cityOnly_catch x | Inr resp \<Rightarrow> resp)"
        "cache_after r0 = cache_after r1"
        "calls r0 = calls (POST_try e now later fetched cache (Some b))"
        "calls r1 = calls (POST_cityOnly_try e now later fetched cache (Some b))"
        unfolding r0_def r1_def \<open>request = Some b\<close>
        by (simp_all add: POST_def POST_cityOnly_def Let_def t(1,2))
      have "status (returned r0) = status (returned r1) \<and>
        (status (returned r0) \<noteq> 400 \<longrightarrow> returned r0 = returned r1) \<and>
        (status (returned r0) = 400 \<longrightarrow>
           returned r0 = invalidInput \<and> returned r1 = invalidInput_cityOnly)"
      proof (cases "returned (POST_try e now later fetched cache (Some b))")
        case (Inl x)
        then show ?thesis
          unfolding ret by (cases x) simp_all
      next
        case (Inr resp)
        from POST_try_Inr_not_400 [OF this] Inr show ?thesis
          unfolding ret by simp
      qed
      then have "status (returned r0) = status (returned r1)"
        "status (returned r0) \<noteq> 400 \<longrightarrow> returned r0 = returned r1"
        "status (returned r0) = 400 \<longrightarrow>
           returned r0 = invalidInput \<and> returned r1 = invalidInput_cityOnly"
        by blast+
      moreover have "(calls r0 = [] \<and> calls r1 = []) \<or>
         (\<exists>apiKey c s. calls r0 = [weatherRequest e apiKey (c @ '', '' @ s)] \<and>
            calls r1 = [weatherRequest_cityOnly e apiKey c s])"
        using t(3) unfolding ret(4,5) by blast
      moreover have "case request of
           None \<Rightarrow> True
         | Some b \<Rightarrow>
             locate b =
               (case requestSchema b of
                  None \<Rightarrow> Inl ZodError
                | Some (c, s) \<Rightarrow> Inr (c @ '', '' @ s, toLowerCase c @ ''-'' @ s))"
        unfolding \<open>request = Some b\<close> option.case by (rule l)
      ultimately show ?thesis
        using ret(3) by (intro conjI)
    qed
  qed
  from main fields show ?thesis
    by - (elim conjE, intro conjI, assumption+)
qed


theorem implementations_agree_without_zip_witness:
  "denverBody \<noteq> JNull \<and> getProp denverBody ''zip'' = None \<and>
   zzBody \<noteq> JNull \<and> getProp zzBody ''zip'' = None \<and>
   returned (POST env0 0 1 (replied 200 (completion ''Rain'')) Map.empty (Some denverBody)) =
     NextResponse_json (Report (JStr ''Rain'') False) \<and>
   returned (POST_cityOnly env0 0 1 (replied 200 (completion ''Rain'')) Map.empty
     (Some denverBody)) = NextResponse_json (Report (JStr ''Rain'') False) \<and>
   cache_after (POST env0 0 1 (replied 200 (completion ''Rain'')) Map.empty (Some denverBody)) =
     cache_after (POST_cityOnly env0 0 1 (replied 200 (completion ''Rain'')) Map.empty
       (Some denverBody)) \<and>
   cache_after (POST env0 0 1 (replied 200 (completion ''Rain'')) Map.empty (Some denverBody))
     ''denver-CO'' = Some \<lparr>data = JStr ''Rain'', timestamp = 1\<rparr> \<and>
   returned (POST env0 0 1 (Rejected IoTimeout) Map.empty (Some zzBody)) = invalidInput \<and>
   returned (POST_cityOnly env0 0 1 (Rejected IoTimeout) Map.empty (Some zzBody)) =
     invalidInput_cityOnly"
  using
    implementations_agree_without_zip [of "Some denverBody" env0 0 1
      "replied 200 (completion ''Rain'')" Map.empty]
    implementations_agree_without_zip [of "Some zzBody" env0 0 1 "Rejected IoTimeout" Map.empty]
  by (simp add: weather_defs response_defs demo_defs char_defs string_defs regex_defs)

text \<open>
  C8 as stated fails: the body \<open>{zip: "80202"}\<close> gets a report from the implementation
  with the zip schemas and a 400 from the other; the two send different token budgets;
  and their answers to an invalid state differ.
\<close>

theorem zip_only_body_counterexample:
  "status (returned (POST env0 0 1 (replied 200 (completion ''Rain'')) Map.empty
     (Some zipBody))) = 200 \<and>
   status (returned (POST_cityOnly env0 0 1 (replied 200 (completion ''Rain'')) Map.empty
     (Some zipBody))) = 400 \<and>
   map max_tokens (calls (POST env0 0 1 (replied 200 (completion ''Rain'')) Map.empty
     (Some denverBody))) = [1000] \<and>
   map max_tokens (calls (POST_cityOnly env0 0 1 (replied 200 (completion ''Rain'')) Map.empty
     (Some denverBody))) = [500] \<and>
   returned (POST env0 0 1 (Rejected IoTimeout) Map.empty (Some zzBody)) \<noteq>
     returned (POST_cityOnly env0 0 1 (Rejected IoTimeout) Map.empty (Some zzBody))"
  by (simp add: weather_defs response_defs demo_defs char_defs string_defs regex_defs)

section \<open>The location typed into the form: properties\<close>

text \<open>What the three regular expressions accept, and what \<open>trim\<close> leaves.\<close>

lemma matches_Nothing [simp]: "matches Nothing s = False"
  by (induction s) simp_all

lemma matches_Empty [simp]: "matches Empty s = (s = [])"
  by (cases s) simp_all

lemma matches_Sym_Seq:
  "matches (Seq (Sym k) r) s = (case s of [] \<Rightarrow> False | c # cs \<Rightarrow> inClass k c \<and> matches r cs)"
  by (cases s) simp_all

lemma matches_Times_Sym:
  "matches (Times n (Sym k)) s = (length s = n \<and> list_all (inClass k) s)"
proof (induction n arbitrary: s)
  case 0
  show ?case by auto
next
  case (Suc n)
  show ?case
    by (cases s) (auto simp: matches_Sym_Seq Suc.IH)
qed

lemma matches_zipRegex: "matches zipRegex s = (length s = 5 \<and> list_all isDigit s)"
  unfolding zipRegex_def by (simp add: matches_Times_Sym list_all_iff del: Times_numeral)

lemma space_not_digit: "isSpace c \<Longrightarrow> \<not> isDigit c"
  by (auto simp: isSpace_def isDigit_def)

lemma space_not_upper: "isSpace c \<Longrightarrow> \<not> isUpper c"
  by (auto simp: isSpace_def isUpper_def)

lemma matches_spaces_digits:
  "matches (Seq (Star (Sym WhiteSpace)) (Times (Suc n) (Sym Digit))) s =
   matches (Times (Suc n) (Sym Digit)) (dropWhile isSpace s)"
proof (induction s)
  case Nil
  show ?case by simp
next
  case (Cons c cs)
  show ?case
  proof (cases "isSpace c")
    case True
    then show ?thesis
      using Cons.IH space_not_digit [OF True] by simp
  next
    case False
    then show ?thesis by simp
  qed
qed

lemma matches_spaces_five:
  "matches (Seq (Star (Sym WhiteSpace)) (Times 5 (Sym Digit))) s =
   (length (dropWhile isSpace s) = 5 \<and> list_all isDigit (dropWhile isSpace s))"
proof -
  have "Times 5 (Sym Digit) = Times (Suc 4) (Sym Digit)" by simp
  then show ?thesis
    using matches_spaces_digits [of 4 s] matches_Times_Sym [of 5 Digit "dropWhile isSpace s"]
    by (simp add: list_all_iff del: Times.simps(2) Times_numeral)
qed

lemma matches_stateZipRegex_cases:
  "matches stateZipRegex a =
   (case a of
      x # y # w # rest \<Rightarrow>
        isUpper x \<and> isUpper y \<and> isSpace w \<and>
        length (dropWhile isSpace rest) = 5 \<and> list_all isDigit (dropWhile isSpace rest)
    | _ \<Rightarrow> False)"
proof -
  have two: "Times 2 (Sym UpperAZ) = Seq (Sym UpperAZ) (Seq (Sym UpperAZ) Empty)" by simp
  show ?thesis
    unfolding stateZipRegex_def Plus_def two
    by (auto simp: matches_spaces_five simp del: Times.simps(2) Times_numeral
        split: list.splits)
qed


lemma matches_stateZipRegex_parts:
  assumes "a = st @ ws @ z" "length st = 2" "list_all isUpper st" "ws \<noteq> []"
    "list_all isSpace ws" "length z = 5" "list_all isDigit z"
  shows "matches stateZipRegex a" "take 2 a = st" "drop (length a - 5) a = z"
proof -
  from assms(2,3) obtain x y where st: "st = [x, y]" "isUpper x" "isUpper y"
    by (cases st; cases "tl st") auto
  from assms(4,5) obtain w ws' where ws: "ws = w # ws'" "isSpace w" "list_all isSpace ws'"
    by (cases ws) auto
  from assms(6,7) obtain d ds where z: "z = d # ds" "isDigit d"
    by (cases z) auto
  have "\<not> isSpace d"
    using z(2) space_not_digit by blast
  then have "dropWhile isSpace (ws' @ z) = z"
    using ws(3) by (simp add: z(1) list_all_iff dropWhile_append2)
  moreover have "a = x # y # w # (ws' @ z)"
    by (simp add: assms(1) st(1) ws(1))
  ultimately show "matches stateZipRegex a"
    unfolding matches_stateZipRegex_cases using assms(6,7) st(2,3) ws(2) by simp
  show "take 2 a = st"
    using assms(2) by (simp add: assms(1))
  show "drop (length a - 5) a = z"
    using assms(6) by (simp add: assms(1))
qed

lemma matches_stateZipRegex_iff:
  "matches stateZipRegex a \<longleftrightarrow>
   (\<exists>st ws z. a = st @ ws @ z \<and> length st = 2 \<and> list_all isUpper st \<and> ws \<noteq> [] \<and>
      list_all isSpace ws \<and> length z = 5 \<and> list_all isDigit z)"
proof
  assume "matches stateZipRegex a"
  then obtain x y w rest where a: "a = x # y # w # rest" "isUpper x" "isUpper y" "isSpace w"
    "length (dropWhile isSpace rest) = 5" "list_all isDigit (dropWhile isSpace rest)"
    by (auto simp: matches_stateZipRegex_cases split: list.splits)
  have "a = [x, y] @ (w # takeWhile isSpace rest) @ dropWhile isSpace rest"
    by (simp add: a(1))
  moreover have "list_all isSpace (w # takeWhile isSpace rest)"
    using a(4) by (auto simp: list_all_iff dest: set_takeWhileD)
  ultimately show "\<exists>st ws z. a = st @ ws @ z \<and> length st = 2 \<and> list_all isUpper st \<and>
      ws \<noteq> [] \<and> list_all isSpace ws \<and> length z = 5 \<and> list_all isDigit z"
    using a(2,3,5,6)
    by (intro exI [of _ "[x, y]"] exI [of _ "w # takeWhile isSpace rest"]
        exI [of _ "dropWhile isSpace rest"]) simp
next
  assume "\<exists>st ws z. a = st @ ws @ z \<and> length st = 2 \<and> list_all isUpper st \<and> ws \<noteq> [] \<and>
      list_all isSpace ws \<and> length z = 5 \<and> list_all isDigit z"
  then show "matches stateZipRegex a"
    using matches_stateZipRegex_parts(1) by blast
qed

lemma rev_dropWhile_rev_Cons:
  assumes "\<not> P x"
  shows "\<exists>zs. rev (dropWhile P (rev (x # xs))) = x # zs"
proof -
  have "\<exists>ys. dropWhile P (rev xs @ [x]) = ys @ [x]"
    using assms by (auto simp: dropWhile_append)
  then obtain ys where "dropWhile P (rev xs @ [x]) = ys @ [x]" ..
  then have "rev (dropWhile P (rev (x # xs))) = x # rev ys" by simp
  then show ?thesis ..
qed

lemma trim_cases: "trim s = [] \<or> (\<exists>x zs. trim s = x # zs \<and> \<not> isSpace x)"
proof (cases "dropWhile isSpace s")
  case Nil
  show ?thesis unfolding trim_def Nil by simp
next
  case (Cons x xs)
  then have "\<not> isSpace x"
    using hd_dropWhile [of isSpace s] by auto
  from rev_dropWhile_rev_Cons [where P = isSpace, OF this, of xs] show ?thesis
    unfolding trim_def Cons using \<open>\<not> isSpace x\<close> by auto
qed

lemma trim_take_nonempty:
  assumes "0 < i" "trim q \<noteq> []"
  shows "trim (take i (trim q)) \<noteq> []"
proof -
  from trim_cases [of q] assms(2) obtain x zs where t: "trim q = x # zs" "\<not> isSpace x"
    by blast
  from assms(1) obtain j where "i = Suc j"
    by (cases i) auto
  then have "take i (trim q) = x # take j zs"
    by (simp add: t(1))
  moreover from rev_dropWhile_rev_Cons [where P = isSpace, OF t(2), of "take j zs"]
  obtain ys where "rev (dropWhile isSpace (rev (x # take j zs))) = x # ys" by blast
  moreover have "dropWhile isSpace (x # take j zs) = x # take j zs"
    using t(2) by simp
  ultimately show ?thesis
    unfolding trim_def [of "take i (trim q)"] by simp
qed

lemma lastIndexOf_Some_nonempty: "lastIndexOf s c = Some i \<Longrightarrow> s \<noteq> []"
  by (cases s) auto


lemma handleSubmit_free_text:
  "handleSubmit [] [] [] query =
    (let t = trim query in
     if matches zipRegex t then Inr \<lparr>city = None, state = None, zip = Some t\<rparr>
     else
       (case lastIndexOf t CHR '','' of
          None \<Rightarrow> Inl InvalidLocation
        | Some i \<Rightarrow>
            if i = 0 then Inl InvalidLocation
            else
              (let c = trim (take i t); a = toUpperCase (trim (drop (Suc i) t)) in
               if matches stateZipRegex a then
                 Inr \<lparr>city = Some c, state = Some (take 2 a),
                      zip = Some (drop (length a - 5) a)\<rparr>
               else if length a = 2 then Inr \<lparr>city = Some c, state = Some a, zip = None\<rparr>
               else Inl InvalidLocation)))"
proof (cases "matches zipRegex (trim query)")
  case True
  then have "trim query \<noteq> []"
    by (auto simp: matches_zipRegex)
  with True show ?thesis
    by (simp add: handleSubmit_def resolveLocation_def buildRequestBody_def)
next
  case False
  show ?thesis
  proof (cases "lastIndexOf (trim query) CHR '',''")
    case None
    with False show ?thesis
      by (simp add: handleSubmit_def resolveLocation_def)
  next
    case (Some i)
    show ?thesis
    proof (cases "i = 0")
      case True
      with False Some show ?thesis
        by (simp add: handleSubmit_def resolveLocation_def)
    next
      case pos: False
      define c where "c = trim (take i (trim query))"
      define a where "a = toUpperCase (trim (drop (Suc i) (trim query)))"
      have c: "c \<noteq> []"
        unfolding c_def using pos lastIndexOf_Some_nonempty [OF Some]
        by (intro trim_take_nonempty) simp_all
      have parts: "take 2 a \<noteq> [] \<and> drop (length a - 5) a \<noteq> []" if "matches stateZipRegex a"
        using that unfolding matches_stateZipRegex_cases by (cases a) auto
      have two: "a \<noteq> []" if "length a = 2"
        using that by auto
      have "resolveLocation [] [] [] query =
          (if matches stateZipRegex a then Some (c, take 2 a, drop (length a - 5) a)
           else if length a = 2 then Some (c, a, []) else None)"
        using False Some pos c parts two
        by (simp add: resolveLocation_def slice_def sliceFrom_def Let_def
            c_def [symmetric] a_def [symmetric])
      then have "handleSubmit [] [] [] query =
          (if matches stateZipRegex a then
             Inr \<lparr>city = Some c, state = Some (take 2 a), zip = Some (drop (length a - 5) a)\<rparr>
           else if length a = 2 then Inr \<lparr>city = Some c, state = Some a, zip = None\<rparr>
           else Inl InvalidLocation)"
        using c parts two by (simp add: handleSubmit_def buildRequestBody_def)
      with False Some pos show ?thesis
        by (simp add: Let_def c_def a_def)
    qed
  qed
qed


lemmas form_defs = handleSubmit_def resolveLocation_def buildRequestBody_def Let_def




end
